theory Spec2Isabelle
  imports Main "HOL-Library.AList" "HOL-Library.Char_ord" "HOL-Library.List_Lexorder"
begin

section \<open>Strings\<close>

text \<open>
  Go strings are byte sequences; they are modelled as \<open>string\<close> (lists of 8-bit
  characters). The functions of Go's \<open>strings\<close> package that the program calls are
  written out for the arguments the program passes them.
\<close>

definition HasPrefix :: "string \<Rightarrow> string \<Rightarrow> bool" where
  \<comment> \<open>\<open>strings.HasPrefix(s, prefix)\<close>: \<open>len(s) >= len(prefix) && s[0:len(prefix)] == prefix\<close>\<close>
  "HasPrefix s pre = (length pre \<le> length s \<and> take (length pre) s = pre)"

definition TrimPrefix :: "string \<Rightarrow> string \<Rightarrow> string" where
  \<comment> \<open>\<open>strings.TrimPrefix(s, prefix)\<close>: \<open>s\<close> itself when it does not start with \<open>prefix\<close>\<close>
  "TrimPrefix s pre = (if HasPrefix s pre then drop (length pre) s else s)"

definition ReplaceAll :: "string \<Rightarrow> char \<Rightarrow> char \<Rightarrow> string" where
  \<comment> \<open>\<open>strings.ReplaceAll(s, old, new)\<close> for one-byte \<open>old\<close> and \<open>new\<close>, the only use made of it\<close>
  "ReplaceAll s old new = map (\<lambda>c. if c = old then new else c) s"

definition toUpperChar :: "char \<Rightarrow> char" where
  "toUpperChar c =
     (case map_of (zip ''abcdefghijklmnopqrstuvwxyz'' ''ABCDEFGHIJKLMNOPQRSTUVWXYZ'') c of
        None \<Rightarrow> c | Some u \<Rightarrow> u)"

definition ToUpper :: "string \<Rightarrow> string" where
  \<comment> \<open>\<open>strings.ToUpper\<close> on ASCII text: the letters a-z are mapped, every other byte is kept.
      (Names of environment variables and store keys are ASCII; Go maps letters beyond
      ASCII by the Unicode tables, which are outside this model.)\<close>
  "ToUpper s = map toUpperChar s"

definition SplitN2 :: "string \<Rightarrow> string list" where
  \<comment> \<open>\<open>strings.SplitN(kv, "=", 2)\<close>: cut at the first \<open>=\<close>; one piece when there is none\<close>
  "SplitN2 kv =
     (if CHR ''='' \<in> set kv
      then [takeWhile (\<lambda>c. c \<noteq> CHR ''='') kv, tl (dropWhile (\<lambda>c. c \<noteq> CHR ''='') kv)]
      else [kv])"

section \<open>Key normalization\<close>

definition normalizeEnvVarName :: "string \<Rightarrow> string" where
  "normalizeEnvVarName k =
     (let envVarName = ToUpper k;
          envVarName = ReplaceAll envVarName (CHR ''/'') (CHR ''_'');
          envVarName = ReplaceAll envVarName (CHR ''-'') (CHR ''_'');
          envVarName = ReplaceAll envVarName (CHR ''.'') (CHR ''_'');
          envVarName = TrimPrefix envVarName ''_''
      in envVarName)"

definition configKeyToEnvVarName :: "string \<Rightarrow> string" where
  "configKeyToEnvVarName k = normalizeEnvVarName k"


section \<open>Go maps and the order of \<open>range\<close>\<close>

text \<open>
  A Go map is an association list with distinct keys: \<open>AList.update k v m\<close> is
  \<open>m[k] = v\<close>, \<open>map_of m k\<close> is the lookup and \<open>AList.delete k m\<close> is
  \<open>delete(m, k)\<close>. A \<open>map[string]struct{}\<close> (a set of keys) is a list of its keys.

  Go leaves the order of \<open>range\<close> over a map unspecified. The order is a parameter
  \<open>ord\<close> of every function that ranges over a map: \<open>ord\<close> is given the keys and
  returns them in the order of the iteration. A choice that is not a rearrangement of
  the keys is ignored.
\<close>

type_synonym range_order = "string list \<Rightarrow> string list"

definition range_keys :: "range_order \<Rightarrow> string list \<Rightarrow> string list" where
  "range_keys ord ks = (if distinct (ord ks) \<and> set (ord ks) = set ks then ord ks else ks)"

definition range_map :: "range_order \<Rightarrow> (string \<times> 'v) list \<Rightarrow> (string \<times> 'v) list" where
  \<comment> \<open>the entries of a map in the order of the iteration\<close>
  "range_map ord m = concat (map (\<lambda>k. case map_of m k of None \<Rightarrow> [] | Some v \<Rightarrow> [(k, v)])
                              (range_keys ord (map fst m)))"

section \<open>The environment\<close>

text \<open>\<open>type Environ []string\<close>: entries of the form \<open>key=value\<close>.\<close>

type_synonym Environ = "string list"

definition findFirst :: "string \<Rightarrow> Environ \<Rightarrow> nat option" where
  \<comment> \<open>the loop \<open>for i := range *e\<close> of \<open>Unset\<close> and \<open>IsSet\<close>: the first index whose entry
      starts with \<open>key=\<close>\<close>
  "findFirst key e = List.find (\<lambda>i. HasPrefix (e ! i) (key @ ''='')) [0..<length e]"

definition Unset :: "string \<Rightarrow> Environ \<Rightarrow> Environ" where
  \<comment> \<open>the entry found is overwritten by the last one and the slice is cut by one\<close>
  "Unset key e = (case findFirst key e of None \<Rightarrow> e | Some i \<Rightarrow> butlast (e[i := last e]))"

definition IsSet :: "string \<Rightarrow> Environ \<Rightarrow> bool" where
  "IsSet key e = (case findFirst key e of None \<Rightarrow> False | Some i \<Rightarrow> True)"

definition Set :: "string \<Rightarrow> string \<Rightarrow> Environ \<Rightarrow> Environ" where
  "Set key val e = Unset key e @ [key @ ''='' @ val]"

definition Map :: "Environ \<Rightarrow> (string \<times> string) list" where
  "Map e = foldl (\<lambda>ret kv. let s = SplitN2 kv
                            in if length s \<noteq> 2 then ret else AList.update (s ! 0) (s ! 1) ret) [] e"

definition fromMap :: "range_order \<Rightarrow> (string \<times> string) list \<Rightarrow> Environ" where
  "fromMap ord m = map (\<lambda>(k, v). k @ ''='' @ v) (range_map ord m)"

section \<open>Errors\<close>

text \<open>
  The error values of the program. \<open>PanicNilDereference\<close> is not a Go error value: it
  stands for the run-time panic of a nil pointer dereference, which nothing in the
  program recovers, so that it ends every call on its way.
\<close>

datatype error =
    ErrConfigNotFound
  | NotImplementedForNullStore
  | ServiceError string
  | FailedToListStoreContents string error
  | ExpectedKeyUnnormalizedError string string
  | StoreUnexpectedValueError string string string
  | StoreMissingKeyError string string
  | PanicNilDereference

definition failedToList :: "string \<Rightarrow> error \<Rightarrow> error" where
  \<comment> \<open>\<open>fmt.Errorf("failed to list store contents (%s): %w", prefixPath, err)\<close>\<close>
  "failedToList prefixPath err =
     (if err = PanicNilDereference then PanicNilDereference
      else FailedToListStoreContents prefixPath err)"

section \<open>The data model of the store\<close>

text \<open>
  The fields of the Go structs keep their names, prefixed where two structs share one.
  A Go pointer that may be nil is an \<open>option\<close>; \<open>time.Time\<close> is a number.
\<close>

record ParameterName =
  ParameterPath :: string
  Name :: string

record Metadata =
  Key :: string
  Description :: string
  Secure :: bool
  Version :: int
  LastModifiedDate :: int
  LastModifiedUser :: string

record Value =
  Value :: "string option"
  Meta :: Metadata

record RawValue =
  RawValue_Value :: string
  RawValue_Key :: string

definition Metadata_zero :: Metadata where
  \<comment> \<open>the zero value \<open>Metadata{}\<close>\<close>
  "Metadata_zero = \<lparr>Key = [], Description = [], Secure = False, Version = 0,
                      LastModifiedDate = 0, LastModifiedUser = []\<rparr>"

definition Value_zero :: Value where
  \<comment> \<open>the zero value \<open>Value{}\<close>\<close>
  "Value_zero = \<lparr>Value = None, Meta = Metadata_zero\<rparr>"

section \<open>Go's \<open>path.Join\<close>\<close>

text \<open>
  \<open>path.Join\<close> and \<open>path.Clean\<close> belong to Go's standard library; they are written
  here as the library documents them. \<open>Clean\<close>: multiple slashes become one, every
  \<open>.\<close> element goes, every inner \<open>..\<close> element goes with the element before it, a
  \<open>..\<close> that begins a rooted path goes; the result ends in a slash only if it is the
  root, and an empty result is \<open>.\<close>. \<open>Join\<close>: the non-empty elements joined by
  slashes and cleaned, and the empty string when there is none.
\<close>

fun splitSlash :: "string \<Rightarrow> string \<Rightarrow> string list" where
  "splitSlash cur [] = [cur]"
| "splitSlash cur (c # cs) =
     (if c = CHR ''/'' then cur # splitSlash [] cs else splitSlash (cur @ [c]) cs)"

fun joinSlash :: "string list \<Rightarrow> string" where
  "joinSlash [] = []"
| "joinSlash [x] = x"
| "joinSlash (x # y # ys) = x @ ''/'' @ joinSlash (y # ys)"

definition path_Clean :: "string \<Rightarrow> string" where
  "path_Clean p =
     (if p = [] then ''.''
      else
        let rooted = (hd p = CHR ''/'');
            out = foldl (\<lambda>out c.
                    if c = [] \<or> c = ''.'' then out
                    else if c = ''..''
                    then (if out \<noteq> [] \<and> last out \<noteq> ''..'' then butlast out
                          else if rooted then out else out @ [c])
                    else out @ [c]) [] (splitSlash [] p)
        in if rooted then CHR ''/'' # joinSlash out
           else if out = [] then ''.'' else joinSlash out)"

definition path_Join :: "string list \<Rightarrow> string" where
  "path_Join elem =
     (let es = filter (\<lambda>e. e \<noteq> []) elem
      in if es = [] then [] else path_Clean (joinSlash es))"

section \<open>The in-memory store\<close>

text \<open>
  \<open>MemoryStore\<close> holds one Go map from key to \<open>Value\<close>; its lock has no part in a
  sequential run. Every operation takes the map and, where it writes, returns the new one.
\<close>

type_synonym MemoryStore = "(string \<times> Value) list"

definition NewMemoryStore :: MemoryStore where
  "NewMemoryStore = []"

definition NewMemoryStoreFromMap :: "range_order \<Rightarrow> (string \<times> string) list \<Rightarrow> MemoryStore" where
  "NewMemoryStoreFromMap ord m =
     foldl (\<lambda>configs (k, v). AList.update (path_Join [''/'', k]) \<lparr>Value = Some v, Meta = Metadata_zero\<rparr> configs)
       [] (range_map ord m)"

definition MemoryStore_Put :: "ParameterName \<Rightarrow> Value \<Rightarrow> MemoryStore \<Rightarrow> error option \<times> MemoryStore" where
  "MemoryStore_Put name val m =
     (let key = path_Join [ParameterPath name, Name name]
      in (None, AList.update key val m))"

definition MemoryStore_Get :: "ParameterName \<Rightarrow> int \<Rightarrow> MemoryStore \<Rightarrow> error + Value" where
  "MemoryStore_Get name version m =
     (let key = path_Join [ParameterPath name, Name name]
      in case map_of m key of Some val \<Rightarrow> Inr val | None \<Rightarrow> Inl ErrConfigNotFound)"

definition MemoryStore_Delete :: "ParameterName \<Rightarrow> MemoryStore \<Rightarrow> error option \<times> MemoryStore" where
  "MemoryStore_Delete name m =
     (let key = path_Join [ParameterPath name, Name name]
      in (None, AList.delete key m))"

fun ListRaw_loop :: "string \<Rightarrow> MemoryStore \<Rightarrow> string list \<Rightarrow> (string \<times> RawValue) list
    \<Rightarrow> error + (string \<times> RawValue) list" where
  \<comment> \<open>the loop \<open>for _, k := range keys\<close>; \<open>*v.Value\<close> panics on a nil pointer\<close>
  "ListRaw_loop prefixPath m [] values = Inr values"
| "ListRaw_loop prefixPath m (k # keys) values =
     (if HasPrefix k prefixPath
      then (case map_of m k of
              None \<Rightarrow> Inl PanicNilDereference
            | Some v \<Rightarrow>
               (let key = TrimPrefix k prefixPath
                in case Value v of
                     None \<Rightarrow> Inl PanicNilDereference
                   | Some s \<Rightarrow> ListRaw_loop prefixPath m keys
                        (AList.update key \<lparr>RawValue_Value = s, RawValue_Key = key\<rparr> values)))
      else ListRaw_loop prefixPath m keys values)"

definition MemoryStore_ListRaw :: "range_order \<Rightarrow> MemoryStore \<Rightarrow> string \<Rightarrow> error + RawValue list" where
  "MemoryStore_ListRaw ord m prefix =
     (let prefixPath = path_Join [''/'', prefix];
          keys = sort (map fst m)
      in case ListRaw_loop prefixPath m keys [] of
           Inl err \<Rightarrow> Inl err
         | Inr values \<Rightarrow> Inr (map snd (range_map ord values)))"

section \<open>The null store\<close>


section \<open>Loading the environment\<close>




fun expects_loop :: "string \<Rightarrow> (string \<times> string) list \<Rightarrow> string list \<Rightarrow> error + string list" where
  \<comment> \<open>the loop \<open>for k, v := range parentMap\<close> that fills \<open>parentExpects\<close>\<close>
  "expects_loop valueExpected [] parentExpects = Inr parentExpects"
| "expects_loop valueExpected ((k, v) # rest) parentExpects =
     (if v = valueExpected
      then (if k \<noteq> normalizeEnvVarName k
            then Inl (ExpectedKeyUnnormalizedError k valueExpected)
            else expects_loop valueExpected rest (List.insert k parentExpects))
      else expects_loop valueExpected rest parentExpects)"

fun rawValues_loop :: "string \<Rightarrow> (string \<times> string) list \<Rightarrow> RawValue list
    \<Rightarrow> string list \<times> string list \<times> Environ \<Rightarrow> error option \<times> string list \<times> string list \<times> Environ" where
  \<comment> \<open>the loop \<open>for _, rawValue := range rawValues\<close>, on \<open>parentExpects\<close>,
      \<open>envVarKeysAdded\<close> and the environment\<close>
  "rawValues_loop valueExpected parentMap [] st = (None, st)"
| "rawValues_loop valueExpected parentMap (rawValue # rest) (parentExpects, envVarKeysAdded, e) =
     (let envVarKey = configKeyToEnvVarName (RawValue_Key rawValue)
      in case map_of parentMap envVarKey of
           None \<Rightarrow> rawValues_loop valueExpected parentMap rest (parentExpects, envVarKeysAdded, e)
         | Some parentVal \<Rightarrow>
            (let parentExpects = removeAll envVarKey parentExpects
             in if parentVal \<noteq> valueExpected
                then (Some (StoreUnexpectedValueError envVarKey valueExpected parentVal),
                      parentExpects, envVarKeysAdded, e)
                else rawValues_loop valueExpected parentMap rest
                       (parentExpects, List.insert envVarKey envVarKeysAdded,
                        Set envVarKey (RawValue_Value rawValue) e)))"

definition loadStrictOne :: "range_order \<Rightarrow> RawValue list \<Rightarrow> string \<Rightarrow> bool \<Rightarrow> Environ
    \<Rightarrow> error option \<times> Environ" where
  \<comment> \<open>the error returned (\<open>None\<close> is nil) and the environment as the call leaves it\<close>
  "loadStrictOne ord rawValues valueExpected pristine e =
     (let parentMap = Map e
      in case expects_loop valueExpected (range_map ord parentMap) [] of
           Inl err \<Rightarrow> (Some err, e)
         | Inr parentExpects \<Rightarrow>
            (case rawValues_loop valueExpected parentMap rawValues (parentExpects, [], e) of
               (Some err, parentExpects, envVarKeysAdded, e) \<Rightarrow> (Some err, e)
             | (None, parentExpects, envVarKeysAdded, e) \<Rightarrow>
                (case range_keys ord parentExpects of
                   k # ks \<Rightarrow> (Some (StoreMissingKeyError k valueExpected), e)
                 | [] \<Rightarrow>
                    (None,
                     if pristine
                     then foldl (\<lambda>e k. if k \<in> set envVarKeysAdded then e else Unset k e) e
                            (range_keys ord (map fst parentMap))
                     else e))))"

fun loadStrict :: "range_order \<Rightarrow> (string \<Rightarrow> error + RawValue list) \<Rightarrow> string \<Rightarrow> bool \<Rightarrow> string list
    \<Rightarrow> Environ \<Rightarrow> error option \<times> Environ \<times> string list" where
  \<comment> \<open>the error returned, the environment as the call leaves it, and the prefix paths on
      which \<open>ListRaw\<close> has been called, in the order of the calls\<close>
  "loadStrict ord s valueExpected pristine [] e = (None, e, [])"
| "loadStrict ord s valueExpected pristine (prefixPath # rest) e =
     (case s prefixPath of
        Inl err \<Rightarrow> (Some (failedToList prefixPath err), e, [prefixPath])
      | Inr rawValues \<Rightarrow>
         (case loadStrictOne ord rawValues valueExpected pristine e of
            (Some err, e') \<Rightarrow> (Some err, e', [prefixPath])
          | (None, e') \<Rightarrow>
             (case loadStrict ord s valueExpected pristine rest e' of
                (err, e'', calls) \<Rightarrow> (err, e'', prefixPath # calls))))"

section \<open>Numbers and their decimal form\<close>

text \<open>
  Go's \<open>int\<close> has 64 bits on the targets the program is built for (amd64). It is an
  \<open>int\<close> of the model, and \<open>int64\<close> wraps the result of an addition into its range.
  \<open>strconv.Itoa\<close> and \<open>strconv.Atoi\<close> belong to Go's standard library and are written
  as it documents them: \<open>Atoi\<close> accepts an optional sign followed by decimal digits,
  returns 0 with a syntax error on anything else, and the nearest bound of the range
  with a range error on a number outside it; the program drops the error.
\<close>

definition int64 :: "int \<Rightarrow> int" where
  "int64 x = (x + 2 ^ 63) mod 2 ^ 64 - 2 ^ 63"

definition digitChar :: "nat \<Rightarrow> char" where
  "digitChar d = ''0123456789'' ! d"

definition digitVal :: "char \<Rightarrow> nat option" where
  "digitVal c = map_of (zip ''0123456789'' [0, 1, 2, 3, 4, 5, 6, 7, 8, 9]) c"

fun decimal :: "nat \<Rightarrow> string" where
  "decimal n = (if n < 10 then [digitChar n] else decimal (n div 10) @ [digitChar (n mod 10)])"

declare decimal.simps [simp del]

definition Itoa :: "int \<Rightarrow> string" where
  "Itoa i = (if i < 0 then CHR ''-'' # decimal (nat (- i)) else decimal (nat i))"

definition Atoi :: "string \<Rightarrow> int" where
  "Atoi s =
     (let neg = (s \<noteq> [] \<and> hd s = CHR ''-'');
          ds = (if s \<noteq> [] \<and> (hd s = CHR ''-'' \<or> hd s = CHR ''+'') then tl s else s)
      in if ds = [] \<or> \<not> list_all (\<lambda>c. digitVal c \<noteq> None) ds then 0
         else
           let n = foldl (\<lambda>n c. n * 10 + int (the (digitVal c))) 0 ds;
               n = (if neg then - n else n)
           in max (- (2 ^ 63)) (min (2 ^ 63 - 1) n))"

section \<open>The parameter service\<close>

text \<open>
  The remote store talks to a parameter service through the interface
  \<open>ssmiface.SSMAPI\<close> of the AWS SDK, which is not part of the repository. Of the SDK's
  structs the model keeps the fields that the program reads. Their fields are pointers:
  a field that the program tests for nil or passes on as a pointer is an \<open>option\<close>;
  the other fields, which the service always fills and the program dereferences
  everywhere, are plain.
\<close>

record Parameter =
  Parameter_Name :: string
  Parameter_Value :: "string option"

record ParameterMetadata =
  ParameterMetadata_Name :: string
  ParameterMetadata_Description :: "string option"
  ParameterMetadata_Type :: string
  ParameterMetadata_LastModifiedDate :: int
  ParameterMetadata_LastModifiedUser :: string

record ParameterHistory =
  ParameterHistory_Name :: string
  ParameterHistory_Description :: "string option"
  ParameterHistory_Type :: string
  ParameterHistory_Value :: "string option"
  ParameterHistory_LastModifiedDate :: int
  ParameterHistory_LastModifiedUser :: string

record PutParameterInput =
  PutParameterInput_Name :: string
  PutParameterInput_Type :: string
  PutParameterInput_Value :: "string option"
  PutParameterInput_Overwrite :: bool
  PutParameterInput_Description :: string
  PutParameterInput_KeyId :: "string option"

text \<open>
  The service is a parameter of the store: a state \<open>'s\<close> and the six calls that the
  program makes. A call fails with the message of the service's error. A paged call
  gives the answers to the successive page requests, each a page or the error that ends
  the paging. \<open>DescribeParametersPages\<close> takes the option and the value of the path
  filter. Reading does not change the state of the service.
\<close>

record 's SSMAPI =
  GetParameters :: "string list \<Rightarrow> 's \<Rightarrow> string + Parameter list"
  DescribeParametersPages :: "string \<Rightarrow> string \<Rightarrow> 's \<Rightarrow> (string + ParameterMetadata list) list"
  GetParametersByPathPages :: "string \<Rightarrow> 's \<Rightarrow> (string + Parameter list) list"
  GetParameterHistoryPages :: "string \<Rightarrow> 's \<Rightarrow> (string + ParameterHistory list) list"
  PutParameter :: "PutParameterInput \<Rightarrow> 's \<Rightarrow> string option \<times> 's"
  DeleteParameter :: "string \<Rightarrow> 's \<Rightarrow> string option \<times> 's"

fun eachPage :: "('p \<Rightarrow> bool \<Rightarrow> 'a \<Rightarrow> error + bool \<times> 'a) \<Rightarrow> (string + 'p) list \<Rightarrow> 'a
    \<Rightarrow> error option \<times> 'a" where
  \<comment> \<open>the paging of the SDK: \<open>fn(page, lastPage)\<close> is called on each page until it returns
      false, a request fails or no page is left; \<open>fn\<close> works on the variables that the
      closure captures, and \<open>Inl\<close> is a panic inside it\<close>
  "eachPage fn [] acc = (None, acc)"
| "eachPage fn (Inl err # rest) acc = (Some (ServiceError err), acc)"
| "eachPage fn (Inr page # rest) acc =
     (case fn page (rest = []) acc of
        Inl panic \<Rightarrow> (Some panic, acc)
      | Inr (continue, acc') \<Rightarrow> if continue then eachPage fn rest acc' else (None, acc'))"

section \<open>The remote store\<close>

definition path_Dir :: "string \<Rightarrow> string" where
  \<comment> \<open>Go's \<open>path.Dir\<close>: the path up to its last slash, cleaned\<close>
  "path_Dir p = path_Clean (rev (dropWhile (\<lambda>c. c \<noteq> CHR ''/'') (rev p)))"

definition AccountDefaultSSMAliasKeyID :: string where
  "AccountDefaultSSMAliasKeyID = ''aws/ssm''"

definition KMSKey :: string where
  "KMSKey = ''alias/'' @ AccountDefaultSSMAliasKeyID"



definition parameterNameToString :: "ParameterName \<Rightarrow> string" where
  "parameterNameToString name = path_Join [''/'', ParameterPath name, Name name]"

definition parameterMetaToValueMeta :: "ParameterMetadata \<Rightarrow> error + Metadata" where
  \<comment> \<open>\<open>*p.Description\<close> is dereferenced whether or not the pointer is nil\<close>
  "parameterMetaToValueMeta p =
     (let version = (case ParameterMetadata_Description p of None \<Rightarrow> 0 | Some d \<Rightarrow> Atoi d)
      in case ParameterMetadata_Description p of
           None \<Rightarrow> Inl PanicNilDereference
         | Some d \<Rightarrow>
            Inr \<lparr>Key = ParameterMetadata_Name p, Description = d,
                 Secure = (ParameterMetadata_Type p = ''SecureString''), Version = version,
                 LastModifiedDate = ParameterMetadata_LastModifiedDate p,
                 LastModifiedUser = ParameterMetadata_LastModifiedUser p\<rparr>)"

fun getLatest_page :: "string \<Rightarrow> ParameterMetadata list \<Rightarrow> ParameterMetadata option
    \<Rightarrow> error + bool \<times> ParameterMetadata option" where
  \<comment> \<open>the closure given to \<open>DescribeParametersPages\<close> in \<open>getLatest\<close>, on \<open>parameter\<close>\<close>
  "getLatest_page parameterNameString [] parameter = Inr (True, parameter)"
| "getLatest_page parameterNameString (param # rest) parameter =
     (if ParameterMetadata_Name param = parameterNameString then Inr (False, Some param)
      else getLatest_page parameterNameString rest parameter)"

definition getLatest :: "'s SSMAPI \<Rightarrow> ParameterName \<Rightarrow> 's \<Rightarrow> error + Value" where
  "getLatest svc name st =
     (let parameterNameString = parameterNameToString name
      in case GetParameters svc [parameterNameString] st of
           Inl err \<Rightarrow> Inl (ServiceError err)
         | Inr [] \<Rightarrow> Inl ErrConfigNotFound
         | Inr (param # others) \<Rightarrow>
            (case eachPage (\<lambda>page lastPage. getLatest_page parameterNameString page)
                    (DescribeParametersPages svc ''OneLevel'' (path_Dir parameterNameString) st) None of
               (Some err, parameter) \<Rightarrow> Inl err
             | (None, None) \<Rightarrow> Inl ErrConfigNotFound
             | (None, Some parameter) \<Rightarrow>
                (case parameterMetaToValueMeta parameter of
                   Inl panic \<Rightarrow> Inl panic
                 | Inr configMeta \<Rightarrow> Inr \<lparr>Value = Parameter_Value param, Meta = configMeta\<rparr>)))"

fun getVersion_page :: "int \<Rightarrow> ParameterHistory list \<Rightarrow> Value \<Rightarrow> error + bool \<times> Value" where
  \<comment> \<open>the closure given to \<open>GetParameterHistoryPages\<close> in \<open>getVersion\<close>, on \<open>result\<close>\<close>
  "getVersion_page version [] result = Inr (True, result)"
| "getVersion_page version (history # rest) result =
     (let thisVersion = (case ParameterHistory_Description history of None \<Rightarrow> 0 | Some d \<Rightarrow> Atoi d)
      in if thisVersion = version
         then (case ParameterHistory_Description history of
                 None \<Rightarrow> Inl PanicNilDereference
               | Some d \<Rightarrow>
                  Inr (False,
                       \<lparr>Value = ParameterHistory_Value history,
                        Meta = \<lparr>Key = ParameterHistory_Name history, Description = d,
                                Secure = (ParameterHistory_Type history = ''SecureString''),
                                Version = thisVersion,
                                LastModifiedDate = ParameterHistory_LastModifiedDate history,
                                LastModifiedUser = ParameterHistory_LastModifiedUser history\<rparr>\<rparr>))
         else getVersion_page version rest result)"

definition getVersion :: "'s SSMAPI \<Rightarrow> ParameterName \<Rightarrow> int \<Rightarrow> 's \<Rightarrow> error + Value" where
  \<comment> \<open>every error of the paging becomes \<open>ErrConfigNotFound\<close>; a panic is no error\<close>
  "getVersion svc name version st =
     (case eachPage (\<lambda>page lastPage. getVersion_page version page)
             (GetParameterHistoryPages svc (parameterNameToString name) st) Value_zero of
        (Some err, result) \<Rightarrow>
          Inl (if err = PanicNilDereference then PanicNilDereference else ErrConfigNotFound)
      | (None, result) \<Rightarrow>
          if Value result \<noteq> None then Inr result else Inl ErrConfigNotFound)"

definition SSMStore_Get :: "'s SSMAPI \<Rightarrow> ParameterName \<Rightarrow> int \<Rightarrow> 's \<Rightarrow> error + Value" where
  "SSMStore_Get svc name version st =
     (if version = - 1 then getLatest svc name st else getVersion svc name version st)"

definition putParameterInput :: "ParameterName \<Rightarrow> Value \<Rightarrow> int \<Rightarrow> PutParameterInput" where
  \<comment> \<open>the request that \<open>Put\<close> builds for the version it has computed\<close>
  "putParameterInput name val version =
     \<lparr>PutParameterInput_Name = parameterNameToString name,
      PutParameterInput_Type = (if Secure (Meta val) then ''SecureString'' else ''String''),
      PutParameterInput_Value = Value val,
      PutParameterInput_Overwrite = True,
      PutParameterInput_Description = Itoa version,
      PutParameterInput_KeyId = (if Secure (Meta val) then Some KMSKey else None)\<rparr>"

definition SSMStore_Put :: "'s SSMAPI \<Rightarrow> ParameterName \<Rightarrow> Value \<Rightarrow> 's \<Rightarrow> error option \<times> 's" where
  "SSMStore_Put svc name val st =
     (case (case SSMStore_Get svc name (- 1) st of
              Inl err \<Rightarrow> if err \<noteq> ErrConfigNotFound then Inl err else Inr 1
            | Inr current \<Rightarrow> Inr (int64 (Version (Meta current) + 1))) of
        Inl err \<Rightarrow> (Some err, st)
      | Inr version \<Rightarrow>
         (case PutParameter svc (putParameterInput name val version) st of
            (Some err, st') \<Rightarrow> (Some (ServiceError err), st')
          | (None, st') \<Rightarrow> (None, st')))"

definition SSMStore_Delete :: "'s SSMAPI \<Rightarrow> ParameterName \<Rightarrow> 's \<Rightarrow> error option \<times> 's" where
  "SSMStore_Delete svc name st =
     (case SSMStore_Get svc name (- 1) st of
        Inl err \<Rightarrow> (Some err, st)
      | Inr current \<Rightarrow>
         (case DeleteParameter svc (parameterNameToString name) st of
            (Some err, st') \<Rightarrow> (Some (ServiceError err), st')
          | (None, st') \<Rightarrow> (None, st')))"



section \<open>Notions of the specification of the remote store\<close>

text \<open>
  The words of the specification for \<open>Get\<close> with an explicit version: the history of
  the key as the paging delivers it (the entries of the pages, up to the end or to the
  first failing request), the version of a history entry (its description parsed as an
  integer, 0 when the description is absent) and the value made of an entry.
\<close>

fun history_of_pages :: "(string + 'p list) list \<Rightarrow> 'p list" where
  "history_of_pages [] = []"
| "history_of_pages (Inl err # rest) = []"
| "history_of_pages (Inr page # rest) = page @ history_of_pages rest"

definition historyVersion :: "ParameterHistory \<Rightarrow> int" where
  "historyVersion history =
     (case ParameterHistory_Description history of None \<Rightarrow> 0 | Some d \<Rightarrow> Atoi d)"

definition historyValue :: "ParameterHistory \<Rightarrow> string \<Rightarrow> Value" where
  "historyValue history d =
     \<lparr>Value = ParameterHistory_Value history,
      Meta = \<lparr>Key = ParameterHistory_Name history, Description = d,
              Secure = (ParameterHistory_Type history = ''SecureString''),
              Version = historyVersion history,
              LastModifiedDate = ParameterHistory_LastModifiedDate history,
              LastModifiedUser = ParameterHistory_LastModifiedUser history\<rparr>\<rparr>"

section \<open>A service for the examples\<close>

text \<open>
  A small parameter service in the manner of a test double, on which the examples run:
  its state maps each name to the history of the parameter, oldest entry first, and it
  answers every paged call with one page. It stores what \<open>PutParameter\<close> gives it and
  reports a missing parameter to \<open>GetParameterHistoryPages\<close> and \<open>DeleteParameter\<close>.
\<close>

type_synonym memService_state = "(string \<times> ParameterHistory list) list"

definition memService_latest :: "memService_state \<Rightarrow> string \<Rightarrow> ParameterHistory option" where
  "memService_latest st n =
     (case map_of st n of None \<Rightarrow> None | Some hs \<Rightarrow> if hs = [] then None else Some (last hs))"

definition memService_metadata :: "string \<Rightarrow> ParameterHistory \<Rightarrow> ParameterMetadata" where
  "memService_metadata n h =
     \<lparr>ParameterMetadata_Name = n,
      ParameterMetadata_Description = ParameterHistory_Description h,
      ParameterMetadata_Type = ParameterHistory_Type h,
      ParameterMetadata_LastModifiedDate = ParameterHistory_LastModifiedDate h,
      ParameterMetadata_LastModifiedUser = ParameterHistory_LastModifiedUser h\<rparr>"

definition memService_under :: "string \<Rightarrow> string \<Rightarrow> bool" where
  \<comment> \<open>the name lies under the path, at any depth\<close>
  "memService_under path n = HasPrefix n (if path = ''/'' then path else path @ ''/'')"

definition memService :: "memService_state SSMAPI" where
  "memService =
     \<lparr>GetParameters = (\<lambda>names st.
        Inr (concat (map (\<lambda>n. case memService_latest st n of
                                 None \<Rightarrow> []
                               | Some h \<Rightarrow> [\<lparr>Parameter_Name = n, Parameter_Value = ParameterHistory_Value h\<rparr>])
                      names))),
      DescribeParametersPages = (\<lambda>opt path st.
        [Inr (concat (map (\<lambda>n. case memService_latest st n of
                                  None \<Rightarrow> []
                                | Some h \<Rightarrow>
                                   if (if opt = ''OneLevel'' then path_Dir n = path else memService_under path n)
                                   then [memService_metadata n h] else [])
                       (map fst st)))]),
      GetParametersByPathPages = (\<lambda>path st.
        [Inr (concat (map (\<lambda>n. case memService_latest st n of
                                  None \<Rightarrow> []
                                | Some h \<Rightarrow>
                                   if memService_under path n
                                   then [\<lparr>Parameter_Name = n, Parameter_Value = ParameterHistory_Value h\<rparr>]
                                   else [])
                       (map fst st)))]),
      GetParameterHistoryPages = (\<lambda>n st.
        case map_of st n of None \<Rightarrow> [Inl ''ParameterNotFound''] | Some hs \<Rightarrow> [Inr hs]),
      PutParameter = (\<lambda>input st.
        if PutParameterInput_Value input = None then (Some ''ValidationException'', st)
        else (None,
              AList.update (PutParameterInput_Name input)
                ((case map_of st (PutParameterInput_Name input) of None \<Rightarrow> [] | Some hs \<Rightarrow> hs) @
                 [\<lparr>ParameterHistory_Name = PutParameterInput_Name input,
                   ParameterHistory_Description = Some (PutParameterInput_Description input),
                   ParameterHistory_Type = PutParameterInput_Type input,
                   ParameterHistory_Value = PutParameterInput_Value input,
                   ParameterHistory_LastModifiedDate = 0,
                   ParameterHistory_LastModifiedUser = ''user''\<rparr>])
                st)),
      DeleteParameter = (\<lambda>n st.
        case map_of st n of
          None \<Rightarrow> (Some ''ParameterNotFound'', st)
        | Some hs \<Rightarrow> (None, AList.delete n st))\<rparr>"

section \<open>Properties of the normalization\<close>






section \<open>The order of \<open>range\<close>\<close>

lemma range_keys_Nil: "range_keys ord [] = []"
  by (simp add: range_keys_def)

lemma range_keys_set: "set (range_keys ord ks) = set ks"
  by (simp add: range_keys_def)

lemma range_keys_distinct: "distinct ks \<Longrightarrow> distinct (range_keys ord ks)"
  by (simp add: range_keys_def)

lemma range_keys_single: "range_keys ord [k] = [k]"
proof -
  have "xs = [k]" if "distinct xs" "set xs = {k}" for xs :: "string list"
    using that by (cases xs) (auto simp: subset_singleton_iff)
  then show ?thesis by (simp add: range_keys_def)
qed

lemma range_map_set: "distinct (map fst m) \<Longrightarrow> set (range_map ord m) = set m"
proof -
  assume d: "distinct (map fst m)"
  have aux: "set (concat (map (\<lambda>k. case map_of m k of None \<Rightarrow> [] | Some v \<Rightarrow> [(k, v)]) ks))
        = {(k, v). k \<in> set ks \<and> map_of m k = Some v}" for ks
    by (induction ks) (auto split: option.splits)
  have "set (range_map ord m) = {(k, v). k \<in> set (range_keys ord (map fst m)) \<and> map_of m k = Some v}"
    unfolding range_map_def by (rule aux)
  also have "\<dots> = {(k, v). k \<in> set (map fst m) \<and> map_of m k = Some v}"
    by (simp only: range_keys_set)
  also have "\<dots> = set m"
  proof (rule set_eqI)
    fix x :: "string \<times> 'a"
    obtain k v where x: "x = (k, v)" by (cases x)
    from d show "x \<in> {(k, v). k \<in> set (map fst m) \<and> map_of m k = Some v} \<longleftrightarrow> x \<in> set m"
      unfolding x by (auto intro: rev_image_eqI)
  qed
  finally show ?thesis .
qed


lemma expects_loop_Inr:
  "expects_loop S entries ex = Inr ex' \<Longrightarrow> set ex' = set ex \<union> {k. (k, S) \<in> set entries}"
  by (induction entries arbitrary: ex) (auto split: if_splits)

lemma expects_loop_ok:
  "(\<And>k. (k, S) \<in> set entries \<Longrightarrow> k = normalizeEnvVarName k) \<Longrightarrow> \<exists>ex'. expects_loop S entries ex = Inr ex'"
  by (induction entries arbitrary: ex) auto


lemma rawValues_loop_filter:
  "\<exists>T r ad' e'. \<forall>ex. rawValues_loop S pm raws (ex, ad, e) = (r, filter (\<lambda>k. k \<notin> T) ex, ad', e')"
proof (induction raws arbitrary: ad e)
  case Nil
  show ?case by (rule exI[of _ "{}"]) simp
next
  case (Cons rv raws)
  let ?k = "configKeyToEnvVarName (RawValue_Key rv)"
  show ?case
  proof (cases "map_of pm ?k")
    case None
    with Cons.IH[of ad e] show ?thesis by (simp add: Let_def)
  next
    case (Some pv)
    show ?thesis
    proof (cases "pv = S")
      case False
      have "removeAll ?k ex = filter (\<lambda>k. k \<notin> {?k}) ex" for ex
        by (induction ex) auto
      with Some False show ?thesis
        by (intro exI[of _ "{?k}"]) (simp add: Let_def)
    next
      case True
      from Cons.IH[of "List.insert ?k ad" "Set ?k (RawValue_Value rv) e"]
      obtain T r ad' e' where T: "\<And>ex. rawValues_loop S pm raws (ex, List.insert ?k ad, Set ?k (RawValue_Value rv) e) =
         (r, filter (\<lambda>k. k \<notin> T) ex, ad', e')" by blast
      have "filter (\<lambda>k. k \<notin> T) (removeAll ?k ex) = filter (\<lambda>k. k \<notin> insert ?k T) ex" for ex
        by (induction ex) auto
      with T Some True show ?thesis
        by (intro exI[of _ "insert ?k T"] exI[of _ r] exI[of _ ad'] exI[of _ e']) (simp add: Let_def)
    qed
  qed
qed

lemma rawValues_loop_same:
  assumes "rawValues_loop S pm raws (ex0, ad, e) = (r, [], ad', e')" and "set ex \<subseteq> set ex0"
  shows "rawValues_loop S pm raws (ex, ad, e) = (r, [], ad', e')"
proof -
  from rawValues_loop_filter[of S pm raws ad e] obtain T r1 ad1 e1 where
    T: "\<And>ex. rawValues_loop S pm raws (ex, ad, e) = (r1, filter (\<lambda>k. k \<notin> T) ex, ad1, e1)" by blast
  from T[of ex0] assms(1) have 0: "filter (\<lambda>k. k \<notin> T) ex0 = []"
    and 1: "r1 = r" "ad1 = ad'" "e1 = e'" by simp_all
  from 0 assms(2) have "filter (\<lambda>k. k \<notin> T) ex = []" by (auto simp: filter_empty_conv)
  with T[of ex] 1 show ?thesis by simp
qed

lemma pristine_fold:
  assumes "distinct ks" and "h \<in> set ks" and "\<And>k. k \<in> set ks \<Longrightarrow> k \<noteq> h \<Longrightarrow> k \<in> A" and "h \<notin> A"
  shows "foldl (\<lambda>e k. if k \<in> A then e else Unset k e) e ks = Unset h e"
  using assms
proof (induction ks arbitrary: e)
  case Nil then show ?case by simp
next
  case (Cons k ks)
  have skip: "foldl (\<lambda>e k. if k \<in> A then e else Unset k e) e ks = e" if "set ks \<subseteq> A" for ks e
    using that by (induction ks arbitrary: e) auto
  show ?case
  proof (cases "k = h")
    case True
    with Cons.prems have "set ks \<subseteq> A" by auto
    with True Cons.prems(4) show ?thesis by (simp add: skip)
  next
    case False
    with Cons.prems have "k \<in> A" "h \<in> set ks" by auto
    with Cons show ?thesis by simp
  qed
qed

section \<open>Strict loading\<close>

lemma Map_distinct: "distinct (map fst (Map e))"
proof -
  have "distinct (map fst acc) \<Longrightarrow> distinct (map fst (foldl (\<lambda>ret kv. let s = SplitN2 kv
       in if length s \<noteq> 2 then ret else AList.update (s ! 0) (s ! 1) ret) acc e))" for acc
    by (induction e arbitrary: acc) (simp_all add: Let_def distinct_update)
  then show ?thesis by (simp add: Map_def)
qed

lemma loadStrictOne_eval:
  assumes raw: "rawValues_loop S (Map e) raws (ex0, [], e) = (None, [], ad, e')"
    and norm: "\<And>k. (k, S) \<in> set (Map e) \<Longrightarrow> k = normalizeEnvVarName k \<and> k \<in> set ex0"
  shows "loadStrictOne ord raws S False e = (None, e')"
    and "h \<in> fst ` set (Map e) \<Longrightarrow> h \<notin> set ad \<Longrightarrow> (\<And>k. k \<in> fst ` set (Map e) \<Longrightarrow> k \<noteq> h \<Longrightarrow> k \<in> set ad)
         \<Longrightarrow> loadStrictOne ord raws S True e = (None, Unset h e')"
proof -
  have entries: "set (range_map ord (Map e)) = set (Map e)"
    by (rule range_map_set) (rule Map_distinct)
  with norm have "\<And>k. (k, S) \<in> set (range_map ord (Map e)) \<Longrightarrow> k = normalizeEnvVarName k" by simp
  from expects_loop_ok[of S "range_map ord (Map e)" "[]", OF this] obtain ex
    where ex: "expects_loop S (range_map ord (Map e)) [] = Inr ex" by blast
  from expects_loop_Inr[OF ex] entries norm have "set ex \<subseteq> set ex0" by auto
  from rawValues_loop_same[OF raw this]
  have loop: "rawValues_loop S (Map e) raws (ex, [], e) = (None, [], ad, e')" .
  show "loadStrictOne ord raws S False e = (None, e')"
    by (simp add: loadStrictOne_def ex loop range_keys_Nil)
  assume h: "h \<in> fst ` set (Map e)" "h \<notin> set ad" "\<And>k. k \<in> fst ` set (Map e) \<Longrightarrow> k \<noteq> h \<Longrightarrow> k \<in> set ad"
  have "foldl (\<lambda>e k. if k \<in> set ad then e else Unset k e) e' (range_keys ord (map fst (Map e))) = Unset h e'"
    using h by (intro pristine_fold) (simp_all add: range_keys_distinct Map_distinct range_keys_set)
  then show "loadStrictOne ord raws S True e = (None, Unset h e')"
    by (simp add: loadStrictOne_def ex loop range_keys_Nil)
qed


lemmas eval_defs = Map_def SplitN2_def Let_def
  configKeyToEnvVarName_def normalizeEnvVarName_def ToUpper_def toUpperChar_def ReplaceAll_def
  TrimPrefix_def HasPrefix_def Set_def Unset_def findFirst_def

lemma raw_eval:
  assumes seed: "seed \<in> {[''HOME=/tmp'', ''DB_USERNAME=changeme'', ''DB_PASSWORD=changeme''],
       [''HOME=/tmp'', ''DB_PASSWORD=changeme'', ''DB_USERNAME=changeme''],
       [''DB_USERNAME=changeme'', ''HOME=/tmp'', ''DB_PASSWORD=changeme''],
       [''DB_USERNAME=changeme'', ''DB_PASSWORD=changeme'', ''HOME=/tmp''],
       [''DB_PASSWORD=changeme'', ''HOME=/tmp'', ''DB_USERNAME=changeme''],
       [''DB_PASSWORD=changeme'', ''DB_USERNAME=changeme'', ''HOME=/tmp'']}"
    and raws: "raws \<in> {[\<lparr>RawValue_Value = ''admin'', RawValue_Key = ''/db/username''\<rparr>, \<lparr>RawValue_Value = ''pass'', RawValue_Key = ''/db/password''\<rparr>], [\<lparr>RawValue_Value = ''pass'', RawValue_Key = ''/db/password''\<rparr>, \<lparr>RawValue_Value = ''admin'', RawValue_Key = ''/db/username''\<rparr>]}"
  shows "\<exists>ad e'. rawValues_loop ''changeme'' (Map seed) raws ([''DB_USERNAME'', ''DB_PASSWORD''], [], seed) = (None, [], ad, e')
     \<and> set ad = {''DB_USERNAME'', ''DB_PASSWORD''}
     \<and> set (Map seed) = {(''HOME'', ''/tmp''), (''DB_USERNAME'', ''changeme''), (''DB_PASSWORD'', ''changeme'')}
     \<and> set (Map e') = {(''HOME'', ''/tmp''), (''DB_USERNAME'', ''admin''), (''DB_PASSWORD'', ''pass'')}
     \<and> set (Map (Unset ''HOME'' e')) = {(''DB_USERNAME'', ''admin''), (''DB_PASSWORD'', ''pass'')}"
  using seed raws
  apply (elim insertE emptyE)
  apply (simp_all add: eval_defs insert_commute)
  done

lemma range_keys_2: "a \<noteq> b \<Longrightarrow> range_keys ord [a, b] = [a, b] \<or> range_keys ord [a, b] = [b, a]"
proof -
  assume ab: "a \<noteq> b"
  have "xs = [a, b] \<or> xs = [b, a]" if d: "distinct xs" and s: "set xs = {a, b}" for xs :: "string list"
  proof -
    from d s ab have "length xs = 2" using distinct_card[of xs] by simp
    then obtain x y where xs: "xs = [x, y]" by (auto simp: numeral_2_eq_2 length_Suc_conv)
    have "x \<in> {a, b}" "y \<in> {a, b}" using s xs by auto
    then have "x = a \<or> x = b" "y = a \<or> y = b" by simp_all
    moreover have "x \<noteq> y" using d xs by simp
    ultimately show ?thesis unfolding xs by blast
  qed
  then show ?thesis unfolding range_keys_def by (cases "distinct (ord [a, b]) \<and> set (ord [a, b]) = set [a, b]") simp_all
qed

lemma range_keys_3: "distinct [a, b, c] \<Longrightarrow> range_keys ord [a, b, c] \<in> {[a, b, c], [a, c, b], [b, a, c], [b, c, a], [c, a, b], [c, b, a]}"
proof -
  assume abc: "distinct [a, b, c]"
  have "xs \<in> {[a, b, c], [a, c, b], [b, a, c], [b, c, a], [c, a, b], [c, b, a]}" if d: "distinct xs" and s: "set xs = {a, b, c}" for xs :: "string list"
  proof -
    from d s abc have "length xs = 3" using distinct_card[of xs] by (simp add: card_insert_if)
    then obtain x y z where xs: "xs = [x, y, z]" by (auto simp: numeral_3_eq_3 length_Suc_conv)
    have "x \<in> {a, b, c}" "y \<in> {a, b, c}" "z \<in> {a, b, c}" using s xs by auto
    then have "x = a \<or> x = b \<or> x = c" "y = a \<or> y = b \<or> y = c" "z = a \<or> z = b \<or> z = c" by simp_all
    moreover have "x \<noteq> y" "x \<noteq> z" "y \<noteq> z" using d xs by simp_all
    ultimately show ?thesis unfolding xs by (simp; blast)
  qed
  then show ?thesis unfolding range_keys_def by (cases "distinct (ord [a, b, c]) \<and> set (ord [a, b, c]) = set [a, b, c]") simp_all
qed

lemma path_Join_test: "path_Join [''/'', ''/test''] = ''/test''"
  "path_Join [''/'', ''/test/db/username''] = ''/test/db/username''"
  "path_Join [''/'', ''/test/db/password''] = ''/test/db/password''"
  by (simp_all add: path_Join_def path_Clean_def)

lemma store_cases:
  "NewMemoryStoreFromMap ord2 [(''/test/db/username'', ''admin''), (''/test/db/password'', ''pass'')]
    \<in> {[(''/test/db/username'', \<lparr>Value = Some ''admin'', Meta = Metadata_zero\<rparr>), (''/test/db/password'', \<lparr>Value = Some ''pass'', Meta = Metadata_zero\<rparr>)],
        [(''/test/db/password'', \<lparr>Value = Some ''pass'', Meta = Metadata_zero\<rparr>), (''/test/db/username'', \<lparr>Value = Some ''admin'', Meta = Metadata_zero\<rparr>)]}"
  using range_keys_2[of "''/test/db/username''" "''/test/db/password''" ord2]
  by (auto simp add: NewMemoryStoreFromMap_def range_map_def path_Join_test)

lemma sort_keys: "sort [''/test/db/username'', ''/test/db/password''] = [''/test/db/password'', ''/test/db/username'']"
  "sort [''/test/db/password'', ''/test/db/username''] = [''/test/db/password'', ''/test/db/username'']"
  by (simp_all add: less_char_def less_eq_char_def list_le_def)

lemma ListRaw_cases:
  "MemoryStore_ListRaw ord1 (NewMemoryStoreFromMap ord2 [(''/test/db/username'', ''admin''), (''/test/db/password'', ''pass'')]) ''/test''
    \<in> {Inr [\<lparr>RawValue_Value = ''admin'', RawValue_Key = ''/db/username''\<rparr>, \<lparr>RawValue_Value = ''pass'', RawValue_Key = ''/db/password''\<rparr>], Inr [\<lparr>RawValue_Value = ''pass'', RawValue_Key = ''/db/password''\<rparr>, \<lparr>RawValue_Value = ''admin'', RawValue_Key = ''/db/username''\<rparr>]}"
  using store_cases[of ord2] range_keys_2[of "''/db/password''" "''/db/username''" ord1]
  by (auto simp add: MemoryStore_ListRaw_def path_Join_test sort_keys HasPrefix_def TrimPrefix_def range_map_def Let_def)

lemma seed_cases:
  "fromMap ord3 [(''HOME'', ''/tmp''), (''DB_USERNAME'', ''changeme''), (''DB_PASSWORD'', ''changeme'')]
   \<in> {[''HOME=/tmp'', ''DB_USERNAME=changeme'', ''DB_PASSWORD=changeme''],
       [''HOME=/tmp'', ''DB_PASSWORD=changeme'', ''DB_USERNAME=changeme''],
       [''DB_USERNAME=changeme'', ''HOME=/tmp'', ''DB_PASSWORD=changeme''],
       [''DB_USERNAME=changeme'', ''DB_PASSWORD=changeme'', ''HOME=/tmp''],
       [''DB_PASSWORD=changeme'', ''HOME=/tmp'', ''DB_USERNAME=changeme''],
       [''DB_PASSWORD=changeme'', ''DB_USERNAME=changeme'', ''HOME=/tmp'']}"
  using range_keys_3[of "''HOME''" "''DB_USERNAME''" "''DB_PASSWORD''" ord3]
  by (auto simp add: fromMap_def range_map_def)

text \<open>
  C5. \<open>LoadStrict\<close> with the seed \<open>{HOME: /tmp, DB_USERNAME: changeme, DB_PASSWORD: changeme}\<close>,
  the sentinel \<open>changeme\<close> and an in-memory store holding \<open>/test/db/username = admin\<close> and
  \<open>/test/db/password = pass\<close>, under the prefix \<open>/test\<close>, returns no error and leaves the
  environment \<open>{HOME: /tmp, DB_USERNAME: admin, DB_PASSWORD: pass}\<close>; with \<open>pristine\<close> it
  leaves \<open>{DB_USERNAME: admin, DB_PASSWORD: pass}\<close>. This holds for every order in which
  the Go maps involved (the seed given to \<open>fromMap\<close>, the map given to
  \<open>NewMemoryStoreFromMap\<close>, the map that \<open>ListRaw\<close> collects and the maps of
  \<open>loadStrictOne\<close>) are ranged over.
\<close>

theorem loadStrict_example:
  "(\<exists>e'. loadStrict ord
            (MemoryStore_ListRaw ord1 (NewMemoryStoreFromMap ord2
               [(''/test/db/username'', ''admin''), (''/test/db/password'', ''pass'')]))
            ''changeme'' False [''/test'']
            (fromMap ord3 [(''HOME'', ''/tmp''), (''DB_USERNAME'', ''changeme''), (''DB_PASSWORD'', ''changeme'')])
          = (None, e', [''/test''])
        \<and> set (Map e') = {(''HOME'', ''/tmp''), (''DB_USERNAME'', ''admin''), (''DB_PASSWORD'', ''pass'')})
   \<and> (\<exists>e'. loadStrict ord
            (MemoryStore_ListRaw ord1 (NewMemoryStoreFromMap ord2
               [(''/test/db/username'', ''admin''), (''/test/db/password'', ''pass'')]))
            ''changeme'' True [''/test'']
            (fromMap ord3 [(''HOME'', ''/tmp''), (''DB_USERNAME'', ''changeme''), (''DB_PASSWORD'', ''changeme'')])
          = (None, e', [''/test''])
        \<and> set (Map e') = {(''DB_USERNAME'', ''admin''), (''DB_PASSWORD'', ''pass'')})"
proof -
  let ?s = "MemoryStore_ListRaw ord1 (NewMemoryStoreFromMap ord2
               [(''/test/db/username'', ''admin''), (''/test/db/password'', ''pass'')])"
  let ?seed = "fromMap ord3 [(''HOME'', ''/tmp''), (''DB_USERNAME'', ''changeme''), (''DB_PASSWORD'', ''changeme'')]"
  from ListRaw_cases[of ord1 ord2] obtain raws
    where s: "?s ''/test'' = Inr raws" and raws: "raws \<in> {[\<lparr>RawValue_Value = ''admin'', RawValue_Key = ''/db/username''\<rparr>, \<lparr>RawValue_Value = ''pass'', RawValue_Key = ''/db/password''\<rparr>], [\<lparr>RawValue_Value = ''pass'', RawValue_Key = ''/db/password''\<rparr>, \<lparr>RawValue_Value = ''admin'', RawValue_Key = ''/db/username''\<rparr>]}" by auto
  from raw_eval[OF seed_cases[of ord3] raws] have
    "\<exists>ad e'. rawValues_loop ''changeme'' (Map ?seed) raws ([''DB_USERNAME'', ''DB_PASSWORD''], [], ?seed) = (None, [], ad, e')
     \<and> set ad = {''DB_USERNAME'', ''DB_PASSWORD''}
     \<and> set (Map ?seed) = {(''HOME'', ''/tmp''), (''DB_USERNAME'', ''changeme''), (''DB_PASSWORD'', ''changeme'')}
     \<and> set (Map e') = {(''HOME'', ''/tmp''), (''DB_USERNAME'', ''admin''), (''DB_PASSWORD'', ''pass'')}
     \<and> set (Map (Unset ''HOME'' e')) = {(''DB_USERNAME'', ''admin''), (''DB_PASSWORD'', ''pass'')}" .
  then obtain ad e'
    where raw: "rawValues_loop ''changeme'' (Map ?seed) raws ([''DB_USERNAME'', ''DB_PASSWORD''], [], ?seed) = (None, [], ad, e')"
      and ad: "set ad = {''DB_USERNAME'', ''DB_PASSWORD''}"
      and pm: "set (Map ?seed) = {(''HOME'', ''/tmp''), (''DB_USERNAME'', ''changeme''), (''DB_PASSWORD'', ''changeme'')}"
      and m1: "set (Map e') = {(''HOME'', ''/tmp''), (''DB_USERNAME'', ''admin''), (''DB_PASSWORD'', ''pass'')}"
      and m2: "set (Map (Unset ''HOME'' e')) = {(''DB_USERNAME'', ''admin''), (''DB_PASSWORD'', ''pass'')}"
    by (elim exE conjE)
  have norm: "k = normalizeEnvVarName k \<and> k \<in> set [''DB_USERNAME'', ''DB_PASSWORD'']"
    if "(k, ''changeme'') \<in> set (Map ?seed)" for k
    using that unfolding pm by (auto simp add: normalizeEnvVarName_def ToUpper_def toUpperChar_def ReplaceAll_def TrimPrefix_def HasPrefix_def)
  have one: "loadStrictOne ord raws ''changeme'' False ?seed = (None, e')"
    by (rule loadStrictOne_eval(1)[OF raw norm])
  have two: "loadStrictOne ord raws ''changeme'' True ?seed = (None, Unset ''HOME'' e')"
    by (rule loadStrictOne_eval(2)[OF raw norm]) (auto simp add: pm ad)
  show ?thesis
    using m1 m2 by (simp add: s one two)
qed

section \<open>Permissive loading\<close>

lemma findFirst_None_iff: "findFirst key e = None \<longleftrightarrow> (\<forall>x \<in> set e. \<not> HasPrefix x (key @ ''=''))"
  by (force simp add: findFirst_def find_None_iff set_conv_nth)


lemma IsSet_iff: "IsSet key e \<longleftrightarrow> (\<exists>x \<in> set e. HasPrefix x (key @ ''=''))"
  using findFirst_None_iff[of key e] by (auto simp add: IsSet_def split: option.splits)



lemma IsSet_Set: "IsSet key (Set key val e)"
  by (simp add: IsSet_iff Set_def HasPrefix_def)













lemmas norm_defs = configKeyToEnvVarName_def normalizeEnvVarName_def ToUpper_def toUpperChar_def
  ReplaceAll_def TrimPrefix_def HasPrefix_def



text \<open>
  C1. The claim: \<open>LoadStrict\<close> raises \<open>StoreMissingKeyError\<close> only when a sentinel key of
  the seed is still unmatched after every prefix of the list has been fetched and
  processed. The code checks for unmatched keys at the end of \<open>loadStrictOne\<close>, once per
  prefix. With the seed \<open>DB_USERNAME=changeme, DB_PASSWORD=changeme\<close>, the store entries
  \<open>/a/db/username\<close> and \<open>/b/db/password\<close> and the prefixes \<open>/a\<close>, \<open>/b\<close>, the call
  fails with \<open>StoreMissingKeyError\<close> for \<open>DB_PASSWORD\<close> after \<open>ListRaw\<close> on \<open>/a\<close> alone,
  although the entry that \<open>ListRaw\<close> returns for \<open>/b\<close> matches that key.
\<close>

theorem loadStrict_missing_before_later_prefix:
  "loadStrict ord
      (MemoryStore_ListRaw ord1 (NewMemoryStoreFromMap ord2
         [(''/a/db/username'', ''admin''), (''/b/db/password'', ''pass'')]))
      ''changeme'' False [''/a'', ''/b''] [''DB_USERNAME=changeme'', ''DB_PASSWORD=changeme'']
    = (Some (StoreMissingKeyError ''DB_PASSWORD'' ''changeme''),
       [''DB_PASSWORD=changeme'', ''DB_USERNAME=admin''], [''/a''])
   \<and> MemoryStore_ListRaw ord1 (NewMemoryStoreFromMap ord2
         [(''/a/db/username'', ''admin''), (''/b/db/password'', ''pass'')]) ''/b''
       = Inr [\<lparr>RawValue_Value = ''pass'', RawValue_Key = ''/db/password''\<rparr>]
   \<and> configKeyToEnvVarName ''/db/password'' = ''DB_PASSWORD''"
proof -
  let ?s = "MemoryStore_ListRaw ord1 (NewMemoryStoreFromMap ord2
         [(''/a/db/username'', ''admin''), (''/b/db/password'', ''pass'')])"
  have j: "path_Join [''/'', ''/a''] = ''/a''" "path_Join [''/'', ''/b''] = ''/b''"
    "path_Join [''/'', ''/a/db/username''] = ''/a/db/username''"
    "path_Join [''/'', ''/b/db/password''] = ''/b/db/password''"
    by (simp_all add: path_Join_def path_Clean_def)
  have srt: "sort [''/a/db/username'', ''/b/db/password''] = [''/a/db/username'', ''/b/db/password'']"
    "sort [''/b/db/password'', ''/a/db/username''] = [''/a/db/username'', ''/b/db/password'']"
    by (simp_all add: less_char_def less_eq_char_def list_le_def)
  have "range_keys ord2 [''/a/db/username'', ''/b/db/password''] = [''/a/db/username'', ''/b/db/password'']
      \<or> range_keys ord2 [''/a/db/username'', ''/b/db/password''] = [''/b/db/password'', ''/a/db/username'']"
    by (rule range_keys_2) simp
  then have s: "?s ''/a'' = Inr [\<lparr>RawValue_Value = ''admin'', RawValue_Key = ''/db/username''\<rparr>]
      \<and> ?s ''/b'' = Inr [\<lparr>RawValue_Value = ''pass'', RawValue_Key = ''/db/password''\<rparr>]"
    by (elim disjE) (simp_all add: NewMemoryStoreFromMap_def MemoryStore_ListRaw_def range_map_def
         range_keys_single j srt HasPrefix_def TrimPrefix_def Let_def)
  have "range_keys ord [''DB_USERNAME'', ''DB_PASSWORD''] = [''DB_USERNAME'', ''DB_PASSWORD'']
      \<or> range_keys ord [''DB_USERNAME'', ''DB_PASSWORD''] = [''DB_PASSWORD'', ''DB_USERNAME'']"
    by (rule range_keys_2) simp
  then have one: "loadStrictOne ord [\<lparr>RawValue_Value = ''admin'', RawValue_Key = ''/db/username''\<rparr>]
       ''changeme'' False [''DB_USERNAME=changeme'', ''DB_PASSWORD=changeme'']
     = (Some (StoreMissingKeyError ''DB_PASSWORD'' ''changeme''),
        [''DB_PASSWORD=changeme'', ''DB_USERNAME=admin''])"
    by (elim disjE) (simp_all add: loadStrictOne_def eval_defs range_map_def range_keys_single)
  have k: "configKeyToEnvVarName ''/db/password'' = ''DB_PASSWORD''"
    by (simp add: norm_defs)
  show ?thesis by (simp add: s one k)
qed

section \<open>Listing the in-memory store\<close>

lemma HasPrefix_append_TrimPrefix: "HasPrefix k pre \<Longrightarrow> pre @ TrimPrefix k pre = k"
  by (auto simp add: HasPrefix_def TrimPrefix_def) (metis append_take_drop_id)

lemma ListRaw_loop_Inl:
  "ListRaw_loop prefixPath m keys values = Inl err \<Longrightarrow>
   err = PanicNilDereference \<and>
   (\<exists>k \<in> set keys. HasPrefix k prefixPath \<and> (case map_of m k of None \<Rightarrow> True | Some v \<Rightarrow> Value v = None))"
proof (induction keys arbitrary: "values")
  case Nil
  then show ?case by simp
next
  case (Cons k keys)
  show ?case
  proof (cases "HasPrefix k prefixPath \<and> (case map_of m k of None \<Rightarrow> True | Some v \<Rightarrow> Value v = None)")
    case True
    with Cons.prems show ?thesis by (auto simp add: Let_def split: option.splits)
  next
    case False
    with Cons.prems obtain values1 where "ListRaw_loop prefixPath m keys values1 = Inl err"
      by (auto simp add: Let_def split: if_splits option.splits)
    from Cons.IH[OF this] show ?thesis by auto
  qed
qed

lemma ListRaw_loop_panics:
  "k \<in> set keys \<Longrightarrow> HasPrefix k prefixPath \<Longrightarrow> map_of m k = Some v \<Longrightarrow> Value v = None \<Longrightarrow>
   ListRaw_loop prefixPath m keys values = Inl PanicNilDereference"
  by (induction keys arbitrary: "values") (auto simp add: Let_def split: option.splits)

lemma ListRaw_loop_Inr:
  "ListRaw_loop prefixPath m keys values = Inr values' \<Longrightarrow>
   map_of values' =
     (\<lambda>key. if \<exists>k \<in> set keys. HasPrefix k prefixPath \<and> TrimPrefix k prefixPath = key
            then Some \<lparr>RawValue_Value = the (Value (the (map_of m (prefixPath @ key)))), RawValue_Key = key\<rparr>
            else map_of values key)
   \<and> (distinct (map fst values) \<longrightarrow> distinct (map fst values'))"
proof (induction keys arbitrary: "values")
  case Nil
  then show ?case by simp
next
  case (Cons k keys)
  show ?case
  proof (cases "HasPrefix k prefixPath")
    case False
    with Cons.prems have "ListRaw_loop prefixPath m keys values = Inr values'" by simp
    from Cons.IH[OF this] False show ?thesis by (auto simp add: fun_eq_iff)
  next
    case True
    from True Cons.prems obtain v s where v: "map_of m k = Some v" "Value v = Some s"
      by (auto simp add: Let_def split: option.splits)
    let ?key = "TrimPrefix k prefixPath"
    let ?rv = "\<lparr>RawValue_Value = s, RawValue_Key = ?key\<rparr>"
    from True Cons.prems v have "ListRaw_loop prefixPath m keys (AList.update ?key ?rv values) = Inr values'"
      by (simp add: Let_def)
    note IH = Cons.IH[OF this]
    have k: "prefixPath @ ?key = k" using True by (rule HasPrefix_append_TrimPrefix)
    have rv: "?rv = \<lparr>RawValue_Value = the (Value (the (map_of m (prefixPath @ ?key)))), RawValue_Key = ?key\<rparr>"
      by (simp add: k v)
    show ?thesis
    proof (intro conjI impI)
      show "map_of values' =
        (\<lambda>key. if \<exists>k \<in> set (k # keys). HasPrefix k prefixPath \<and> TrimPrefix k prefixPath = key
            then Some \<lparr>RawValue_Value = the (Value (the (map_of m (prefixPath @ key)))), RawValue_Key = key\<rparr>
            else map_of values key)"
      proof (rule ext)
        fix key
        show "map_of values' key =
          (if \<exists>k \<in> set (k # keys). HasPrefix k prefixPath \<and> TrimPrefix k prefixPath = key
            then Some \<lparr>RawValue_Value = the (Value (the (map_of m (prefixPath @ key)))), RawValue_Key = key\<rparr>
            else map_of values key)"
        proof (cases "key = ?key")
          case True
          with IH rv \<open>HasPrefix k prefixPath\<close> show ?thesis by (auto simp add: update_conv')
        next
          case False
          with IH show ?thesis by (auto simp add: update_conv')
        qed
      qed
    next
      assume "distinct (map fst values)"
      then have "distinct (map fst (AList.update ?key ?rv values))" by (rule distinct_update)
      with IH show "distinct (map fst values')" by simp
    qed
  qed
qed

lemma set_range_map_snd:
  "distinct (map fst m) \<Longrightarrow> set (map snd (range_map ord m)) = ran (map_of m)"
  by (simp add: range_map_set ran_distinct)

text \<open>
  C10. \<open>MemoryStore.ListRaw\<close> dereferences the value pointer of every entry whose key
  starts with the prefix path, without a nil check. In every state of the store in which
  each such entry has a non-nil value pointer, \<open>ListRaw\<close> returns, with no error, exactly
  the pairs of the trimmed key and the value of those entries. The precondition is
  necessary: \<open>Put\<close> accepts and stores a \<open>Value\<close> with a nil pointer, and \<open>ListRaw\<close>
  over a prefix that covers its key then panics on the nil dereference.
\<close>

theorem MemoryStore_ListRaw_nil:
  "((\<forall>k v. map_of m k = Some v \<and> HasPrefix k (path_Join [''/'', prefix]) \<longrightarrow> Value v \<noteq> None) \<longrightarrow>
      (\<exists>rawValues. MemoryStore_ListRaw ord m prefix = Inr rawValues
         \<and> set rawValues =
             {\<lparr>RawValue_Value = s, RawValue_Key = TrimPrefix k (path_Join [''/'', prefix])\<rparr> | k v s.
                map_of m k = Some v \<and> Value v = Some s \<and> HasPrefix k (path_Join [''/'', prefix])}))
   \<and> (MemoryStore_ListRaw ord m prefix = Inl PanicNilDereference \<longleftrightarrow>
        (\<exists>k v. map_of m k = Some v \<and> HasPrefix k (path_Join [''/'', prefix]) \<and> Value v = None))
   \<and> (HasPrefix (path_Join [ParameterPath name, Name name]) (path_Join [''/'', prefix]) \<longrightarrow>
        fst (MemoryStore_Put name \<lparr>Value = None, Meta = meta\<rparr> m) = None
        \<and> MemoryStore_ListRaw ord (snd (MemoryStore_Put name \<lparr>Value = None, Meta = meta\<rparr> m)) prefix
            = Inl PanicNilDereference)"
proof -
  let ?pp = "path_Join [''/'', prefix]"
  have keys: "set (sort (map fst m)) = fst ` set m" by simp
  have panic_iff: "MemoryStore_ListRaw ord m prefix = Inl PanicNilDereference \<longleftrightarrow>
        (\<exists>k v. map_of m k = Some v \<and> HasPrefix k ?pp \<and> Value v = None)" for m :: MemoryStore
  proof
    assume "MemoryStore_ListRaw ord m prefix = Inl PanicNilDereference"
    then have "ListRaw_loop ?pp m (sort (map fst m)) [] = Inl PanicNilDereference"
      by (simp add: MemoryStore_ListRaw_def Let_def split: sum.splits)
    from ListRaw_loop_Inl[OF this] obtain k where
      k: "k \<in> fst ` set m" "HasPrefix k ?pp" "case map_of m k of None \<Rightarrow> True | Some v \<Rightarrow> Value v = None"
      by auto
    from k(1) obtain v where "map_of m k = Some v" by (auto dest: weak_map_of_SomeI)
    with k show "\<exists>k v. map_of m k = Some v \<and> HasPrefix k ?pp \<and> Value v = None" by auto
  next
    assume "\<exists>k v. map_of m k = Some v \<and> HasPrefix k ?pp \<and> Value v = None"
    then obtain k v where kv: "map_of m k = Some v" "HasPrefix k ?pp" "Value v = None" by blast
    from kv(1) have "k \<in> set (sort (map fst m))" by (auto dest: map_of_SomeD intro: rev_image_eqI)
    from ListRaw_loop_panics[OF this kv(2) kv(1) kv(3)]
    show "MemoryStore_ListRaw ord m prefix = Inl PanicNilDereference"
      by (simp add: MemoryStore_ListRaw_def Let_def)
  qed
  have total: "\<exists>rawValues. MemoryStore_ListRaw ord m prefix = Inr rawValues
         \<and> set rawValues =
             {\<lparr>RawValue_Value = s, RawValue_Key = TrimPrefix k ?pp\<rparr> | k v s.
                map_of m k = Some v \<and> Value v = Some s \<and> HasPrefix k ?pp}"
    if pre: "\<forall>k v. map_of m k = Some v \<and> HasPrefix k ?pp \<longrightarrow> Value v \<noteq> None"
  proof -
    have "\<exists>vals. ListRaw_loop ?pp m (sort (map fst m)) [] = Inr vals"
    proof (cases "ListRaw_loop ?pp m (sort (map fst m)) []")
      case (Inl err)
      from ListRaw_loop_Inl[OF this] obtain k where
        k: "k \<in> fst ` set m" "HasPrefix k ?pp" "case map_of m k of None \<Rightarrow> True | Some v \<Rightarrow> Value v = None"
        by auto
      from k(1) obtain v where "map_of m k = Some v"
        by (auto dest: weak_map_of_SomeI)
      with k pre show ?thesis by auto
    next
      case (Inr vs)
      then show ?thesis by blast
    qed
    then obtain vals where loop: "ListRaw_loop ?pp m (sort (map fst m)) [] = Inr vals" by blast
    from ListRaw_loop_Inr[OF loop]
    have mo: "map_of vals =
       (\<lambda>key. if \<exists>k \<in> fst ` set m. HasPrefix k ?pp \<and> TrimPrefix k ?pp = key
            then Some \<lparr>RawValue_Value = the (Value (the (map_of m (?pp @ key)))), RawValue_Key = key\<rparr>
            else None)"
      and d: "distinct (map fst vals)"
      by (simp_all add: keys cong: if_cong)
    have res: "MemoryStore_ListRaw ord m prefix = Inr (map snd (range_map ord vals))"
      by (simp add: MemoryStore_ListRaw_def Let_def loop)
    have "ran (map_of vals) =
       {\<lparr>RawValue_Value = s, RawValue_Key = TrimPrefix k ?pp\<rparr> | k v s.
                map_of m k = Some v \<and> Value v = Some s \<and> HasPrefix k ?pp}" (is "?L = ?R")
    proof (rule set_eqI)
      fix rv
      show "rv \<in> ?L \<longleftrightarrow> rv \<in> ?R"
      proof
        assume "rv \<in> ?L"
        then obtain key where "map_of vals key = Some rv" by (auto simp add: ran_def)
        with mo obtain k where k: "k \<in> fst ` set m" "HasPrefix k ?pp" "TrimPrefix k ?pp = key"
          and rv: "rv = \<lparr>RawValue_Value = the (Value (the (map_of m (?pp @ key)))), RawValue_Key = key\<rparr>"
          by (auto split: if_splits)
        from k(1) obtain v where v: "map_of m k = Some v"
          by (auto dest: weak_map_of_SomeI)
        with pre k(2) obtain s where s: "Value v = Some s" by auto
        from HasPrefix_append_TrimPrefix[OF k(2)] k(3) have "?pp @ key = k" by simp
        with rv v s k show "rv \<in> ?R" by auto
      next
        assume "rv \<in> ?R"
        then obtain k v s where kvs: "map_of m k = Some v" "Value v = Some s" "HasPrefix k ?pp"
          and rv: "rv = \<lparr>RawValue_Value = s, RawValue_Key = TrimPrefix k ?pp\<rparr>" by blast
        from kvs(1) have "k \<in> fst ` set m" by (auto dest: map_of_SomeD intro: rev_image_eqI)
        moreover from HasPrefix_append_TrimPrefix[OF kvs(3)] have "?pp @ TrimPrefix k ?pp = k" .
        ultimately have "map_of vals (TrimPrefix k ?pp) = Some rv"
          using kvs rv by (auto simp add: mo)
        then show "rv \<in> ?L" by (auto simp add: ran_def)
      qed
    qed
    with res d show ?thesis by (simp add: set_range_map_snd del: set_map)
  qed
  have put: "fst (MemoryStore_Put name \<lparr>Value = None, Meta = meta\<rparr> m) = None
        \<and> MemoryStore_ListRaw ord (snd (MemoryStore_Put name \<lparr>Value = None, Meta = meta\<rparr> m)) prefix
            = Inl PanicNilDereference"
    if "HasPrefix (path_Join [ParameterPath name, Name name]) ?pp"
  proof -
    let ?key = "path_Join [ParameterPath name, Name name]"
    have "map_of (AList.update ?key \<lparr>Value = None, Meta = meta\<rparr> m) ?key = Some \<lparr>Value = None, Meta = meta\<rparr>"
      by (simp add: update_conv')
    with that have "\<exists>k v. map_of (AList.update ?key \<lparr>Value = None, Meta = meta\<rparr> m) k = Some v \<and> HasPrefix k ?pp \<and> Value v = None"
      by (intro exI[of _ ?key] exI[of _ "\<lparr>Value = None, Meta = meta\<rparr>"]) simp
    then show ?thesis
      by (simp add: MemoryStore_Put_def Let_def panic_iff)
  qed
  from total panic_iff[of m] put show ?thesis by blast
qed

theorem MemoryStore_ListRaw_nil_witness:
  "(\<exists>rawValues.
      MemoryStore_ListRaw (\<lambda>ks. ks) [(''/test/a'', \<lparr>Value = Some ''x'', Meta = Metadata_zero\<rparr>)] ''/test''
        = Inr rawValues
      \<and> set rawValues = {\<lparr>RawValue_Value = ''x'', RawValue_Key = ''/a''\<rparr>})
   \<and> HasPrefix (path_Join [''/test'', ''b'']) (path_Join [''/'', ''/test''])
   \<and> MemoryStore_ListRaw (\<lambda>ks. ks)
        (snd (MemoryStore_Put \<lparr>ParameterPath = ''/test'', Name = ''b''\<rparr> \<lparr>Value = None, Meta = Metadata_zero\<rparr>
               [(''/test/a'', \<lparr>Value = Some ''x'', Meta = Metadata_zero\<rparr>)])) ''/test''
       = Inl PanicNilDereference"
proof -
  let ?m = "[(''/test/a'', \<lparr>Value = Some ''x'', Meta = Metadata_zero\<rparr>)]"
  let ?name = "\<lparr>ParameterPath = ''/test'', Name = ''b''\<rparr>"
  have j: "path_Join [''/'', ''/test''] = ''/test''" "path_Join [''/test'', ''b''] = ''/test/b''"
    by (simp_all add: path_Join_def path_Clean_def)
  have pre: "\<forall>k v. map_of ?m k = Some v \<and> HasPrefix k (path_Join [''/'', ''/test'']) \<longrightarrow> Value v \<noteq> None"
    by (auto split: if_splits)
  have cover: "HasPrefix (path_Join [ParameterPath ?name, Name ?name]) (path_Join [''/'', ''/test''])"
    by (simp add: j HasPrefix_def)
  have set_eq: "{\<lparr>RawValue_Value = s, RawValue_Key = TrimPrefix k (path_Join [''/'', ''/test''])\<rparr> | k v s.
                map_of ?m k = Some v \<and> Value v = Some s \<and> HasPrefix k (path_Join [''/'', ''/test''])}
        = {\<lparr>RawValue_Value = ''x'', RawValue_Key = ''/a''\<rparr>}"
    by (auto simp add: j HasPrefix_def TrimPrefix_def split: if_splits)
  from MemoryStore_ListRaw_nil[of ?m "''/test''" "\<lambda>ks. ks" ?name Metadata_zero] pre cover set_eq
  show ?thesis by (simp add: j)
qed

section \<open>Put, Get and Delete on the in-memory store\<close>

lemma MemoryStore_Put_Get:
  "MemoryStore_Get name version (snd (MemoryStore_Put name val m)) = Inr val"
  by (simp add: MemoryStore_Get_def MemoryStore_Put_def Let_def update_conv')

lemma MemoryStore_Delete_Get:
  "MemoryStore_Get name version (snd (MemoryStore_Delete name m)) = Inl ErrConfigNotFound"
  by (simp add: MemoryStore_Get_def MemoryStore_Delete_def Let_def delete_conv')

lemma MemoryStore_Delete_missing:
  "MemoryStore_Get name version m = Inl ErrConfigNotFound \<Longrightarrow> MemoryStore_Delete name m = (None, m)"
  by (auto simp add: MemoryStore_Get_def MemoryStore_Delete_def Let_def map_of_eq_None_iff split: option.splits)

section \<open>Get with an explicit version on the remote store\<close>

lemma getVersion_page_find:
  "getVersion_page version page result =
     (case find (\<lambda>h. historyVersion h = version) page of
        None \<Rightarrow> Inr (True, result)
      | Some h \<Rightarrow>
         (case ParameterHistory_Description h of
            None \<Rightarrow> Inl PanicNilDereference
          | Some d \<Rightarrow> Inr (False, historyValue h d)))"
  by (induction page) (auto simp add: historyVersion_def historyValue_def Let_def split: option.splits)

lemma find_append: "find P (xs @ ys) = (case find P xs of None \<Rightarrow> find P ys | Some x \<Rightarrow> Some x)"
  by (induction xs) simp_all

lemma eachPage_getVersion:
  "\<exists>x. eachPage (\<lambda>page lastPage. getVersion_page version page) pages result =
     (case find (\<lambda>h. historyVersion h = version) (history_of_pages pages) of
        None \<Rightarrow> (x, result)
      | Some h \<Rightarrow>
         (case ParameterHistory_Description h of
            None \<Rightarrow> (Some PanicNilDereference, result)
          | Some d \<Rightarrow> (None, historyValue h d)))
     \<and> x \<noteq> Some PanicNilDereference"
proof (induction pages)
  case Nil
  show ?case by simp
next
  case (Cons p pages)
  show ?case
  proof (cases p)
    case (Inl err)
    then show ?thesis by simp
  next
    case (Inr page)
    note gp = getVersion_page_find[of version page result]
    show ?thesis
    proof (cases "find (\<lambda>h. historyVersion h = version) page")
      case None
      with Inr Cons.IH gp show ?thesis
        by (simp add: find_append)
    next
      case (Some h)
      with Inr gp show ?thesis
        by (cases "ParameterHistory_Description h") (auto simp add: find_append intro: exI[of _ None])
    qed
  qed
qed

lemma getVersion_first_match:
  "getVersion svc name version st =
     (case find (\<lambda>h. historyVersion h = version)
             (history_of_pages (GetParameterHistoryPages svc (parameterNameToString name) st)) of
        None \<Rightarrow> Inl ErrConfigNotFound
      | Some h \<Rightarrow>
         (case ParameterHistory_Description h of
            None \<Rightarrow> Inl PanicNilDereference
          | Some d \<Rightarrow>
             if ParameterHistory_Value h = None then Inl ErrConfigNotFound
             else Inr (historyValue h d)))"
proof -
  let ?pages = "GetParameterHistoryPages svc (parameterNameToString name) st"
  from eachPage_getVersion[of version ?pages Value_zero] obtain x where
    e: "eachPage (\<lambda>page lastPage. getVersion_page version page) ?pages Value_zero =
     (case find (\<lambda>h. historyVersion h = version) (history_of_pages ?pages) of
        None \<Rightarrow> (x, Value_zero)
      | Some h \<Rightarrow>
         (case ParameterHistory_Description h of
            None \<Rightarrow> (Some PanicNilDereference, Value_zero)
          | Some d \<Rightarrow> (None, historyValue h d)))"
    and x: "x \<noteq> Some PanicNilDereference" by blast
  show ?thesis
  proof (cases "find (\<lambda>h. historyVersion h = version) (history_of_pages ?pages)")
    case None
    with e x show ?thesis
      by (cases x) (simp_all add: getVersion_def Value_zero_def)
  next
    case (Some h)
    with e show ?thesis
      by (cases "ParameterHistory_Description h") (simp_all add: getVersion_def historyValue_def)
  qed
qed

text \<open>
  C7. The claim: \<open>Get\<close> with an explicit version \<open>v\<close> returns the first entry of the
  history whose description, parsed as an integer and taken as 0 when absent, equals
  \<open>v\<close>, and fails with \<open>ErrConfigNotFound\<close> when there is none or when the value of
  the entry is nil. The code does so except when the entry found has no description,
  which happens for \<open>v = 0\<close> only: the closure tests the pointer before parsing the
  description but then dereferences it for the metadata, and panics. On the example
  service, with a history of one entry without description, \<open>Get\<close> with version 0
  panics, while \<open>Get\<close> with version 2 on a history with the descriptions 1, 2 and 2
  returns the first entry of version 2.
\<close>

theorem getVersion_absent_description:
  "getVersion svc name version st =
     (case find (\<lambda>h. historyVersion h = version)
             (history_of_pages (GetParameterHistoryPages svc (parameterNameToString name) st)) of
        None \<Rightarrow> Inl ErrConfigNotFound
      | Some h \<Rightarrow>
         (case ParameterHistory_Description h of
            None \<Rightarrow> Inl PanicNilDereference
          | Some d \<Rightarrow>
             if ParameterHistory_Value h = None then Inl ErrConfigNotFound
             else Inr (historyValue h d)))
   \<and> SSMStore_Get memService \<lparr>ParameterPath = ''/t'', Name = ''k''\<rparr> 0
         [(''/t/k'', [\<lparr>ParameterHistory_Name = ''/t/k'', ParameterHistory_Description = None,
                       ParameterHistory_Type = ''String'', ParameterHistory_Value = Some ''v'',
                       ParameterHistory_LastModifiedDate = 0, ParameterHistory_LastModifiedUser = ''user''\<rparr>])]
       = Inl PanicNilDereference
   \<and> SSMStore_Get memService \<lparr>ParameterPath = ''/t'', Name = ''k''\<rparr> 2
         [(''/t/k'', [\<lparr>ParameterHistory_Name = ''/t/k'', ParameterHistory_Description = Some ''1'',
                       ParameterHistory_Type = ''String'', ParameterHistory_Value = Some ''a'',
                       ParameterHistory_LastModifiedDate = 0, ParameterHistory_LastModifiedUser = ''user''\<rparr>,
                      \<lparr>ParameterHistory_Name = ''/t/k'', ParameterHistory_Description = Some ''2'',
                       ParameterHistory_Type = ''String'', ParameterHistory_Value = Some ''b'',
                       ParameterHistory_LastModifiedDate = 0, ParameterHistory_LastModifiedUser = ''user''\<rparr>,
                      \<lparr>ParameterHistory_Name = ''/t/k'', ParameterHistory_Description = Some ''2'',
                       ParameterHistory_Type = ''String'', ParameterHistory_Value = Some ''c'',
                       ParameterHistory_LastModifiedDate = 0, ParameterHistory_LastModifiedUser = ''user''\<rparr>])]
       = Inr \<lparr>Value = Some ''b'',
              Meta = \<lparr>Key = ''/t/k'', Description = ''2'', Secure = False, Version = 2,
                      LastModifiedDate = 0, LastModifiedUser = ''user''\<rparr>\<rparr>"
proof -
  have n: "parameterNameToString \<lparr>ParameterPath = ''/t'', Name = ''k''\<rparr> = ''/t/k''"
    by (simp add: parameterNameToString_def path_Join_def path_Clean_def)
  have a: "Atoi ''1'' = 1" "Atoi ''2'' = 2"
    by (simp_all add: Atoi_def digitVal_def)
  show ?thesis
    by (intro conjI getVersion_first_match)
       (simp_all add: SSMStore_Get_def getVersion_def n memService_def Let_def a)
qed

section \<open>Variable names in the two modes\<close>



















section \<open>Decimal numbers\<close>

lemma digits_table:
  "list_all (\<lambda>d. digitVal (digitChar d) = Some d \<and> digitChar d \<noteq> CHR ''-'' \<and> digitChar d \<noteq> CHR ''+'')
     [0, 1, 2, 3, 4, 5, 6, 7, 8, 9]"
  by (simp add: digitVal_def digitChar_def)

lemma digitVal_digitChar:
  assumes "d < 10"
  shows "digitVal (digitChar d) = Some d" and "digitChar d \<noteq> CHR ''-''" and "digitChar d \<noteq> CHR ''+''"
proof -
  have "[0..<10] = [0, 1, 2, 3, 4, 5, 6, 7, 8, 9 :: nat]" by (simp add: upt_rec)
  with assms have "d \<in> set [0, 1, 2, 3, 4, 5, 6, 7, 8, 9 :: nat]"
    by (metis atLeastLessThan_iff set_upt zero_le)
  with digits_table show "digitVal (digitChar d) = Some d" "digitChar d \<noteq> CHR ''-''" "digitChar d \<noteq> CHR ''+''"
    unfolding list_all_iff by blast+
qed

lemma decimal_digits:
  "decimal n \<noteq> [] \<and> list_all (\<lambda>c. digitVal c \<noteq> None) (decimal n)
   \<and> foldl (\<lambda>n c. n * 10 + int (the (digitVal c))) 0 (decimal n) = int n
   \<and> hd (decimal n) \<noteq> CHR ''-'' \<and> hd (decimal n) \<noteq> CHR ''+''"
proof (induction n rule: decimal.induct)
  case (1 n)
  show ?case
  proof (cases "n < 10")
    case True
    then have "decimal n = [digitChar n]" by (subst decimal.simps) simp
    with digitVal_digitChar[OF True] show ?thesis by simp
  next
    case False
    then have d: "decimal n = decimal (n div 10) @ [digitChar (n mod 10)]" by (subst decimal.simps) simp
    have m: "n mod 10 < 10" by simp
    have a: "int (n div 10) * 10 + int (n mod 10) = int n"
      by (metis mult.commute mult_div_mod_eq of_nat_add of_nat_mult of_nat_numeral)
    from False 1 digitVal_digitChar(1)[OF m] a show ?thesis
      unfolding d by (simp add: hd_append)
  qed
qed

lemma Atoi_Itoa: "- (2 ^ 63) \<le> v \<Longrightarrow> v < 2 ^ 63 \<Longrightarrow> Atoi (Itoa v) = v"
proof (cases "v < 0")
  case True
  assume "- (2 ^ 63) \<le> v" "v < 2 ^ 63"
  with True decimal_digits[of "nat (- v)"] show ?thesis
    by (simp add: Atoi_def Itoa_def Let_def)
next
  case False
  assume "- (2 ^ 63) \<le> v" "v < 2 ^ 63"
  with False decimal_digits[of "nat v"] show ?thesis
    by (simp add: Atoi_def Itoa_def Let_def)
qed

lemma int64_range: "- (2 ^ 63) \<le> int64 x \<and> int64 x < 2 ^ 63"
  by (simp add: int64_def)

lemma int64_succ: "- (2 ^ 63) \<le> v \<Longrightarrow> v < 2 ^ 63 - 1 \<Longrightarrow> int64 (v + 1) = v + 1"
  by (simp add: int64_def)

lemma Atoi_range: "- (2 ^ 63) \<le> Atoi s \<and> Atoi s < 2 ^ 63"
  by (auto simp add: Atoi_def Let_def min_def max_def)

section \<open>Get of the latest version, Put and Delete on the remote store\<close>

lemma getLatest_page_find:
  "getLatest_page n page parameter =
     (case find (\<lambda>m. ParameterMetadata_Name m = n) page of
        None \<Rightarrow> Inr (True, parameter)
      | Some m \<Rightarrow> Inr (False, Some m))"
  by (induction page) simp_all

lemma eachPage_getLatest:
  "\<exists>x. eachPage (\<lambda>page lastPage. getLatest_page n page) pages parameter =
     (case find (\<lambda>m. ParameterMetadata_Name m = n) (history_of_pages pages) of
        None \<Rightarrow> (x, parameter)
      | Some m \<Rightarrow> (None, Some m))
     \<and> x \<noteq> Some PanicNilDereference"
proof (induction pages)
  case Nil
  show ?case by simp
next
  case (Cons p pages)
  show ?case
  proof (cases p)
    case (Inl err)
    then show ?thesis by simp
  next
    case (Inr page)
    note gp = getLatest_page_find[of n page parameter]
    show ?thesis
    proof (cases "find (\<lambda>m. ParameterMetadata_Name m = n) page")
      case None
      with Inr Cons.IH gp show ?thesis by (simp add: find_append)
    next
      case (Some m)
      with Inr gp show ?thesis by (auto simp add: find_append intro: exI[of _ None])
    qed
  qed
qed

lemma getLatest_missing:
  "GetParameters svc [parameterNameToString name] st = Inr [] \<Longrightarrow>
   getLatest svc name st = Inl ErrConfigNotFound"
  by (simp add: getLatest_def Let_def)

lemma getLatest_found:
  assumes "GetParameters svc [parameterNameToString name] st = Inr (param # others)"
    and "find (\<lambda>m. ParameterMetadata_Name m = parameterNameToString name)
           (history_of_pages (DescribeParametersPages svc ''OneLevel'' (path_Dir (parameterNameToString name)) st))
         = Some m"
    and "ParameterMetadata_Description m = Some d"
  shows "getLatest svc name st =
     Inr \<lparr>Value = Parameter_Value param,
          Meta = \<lparr>Key = parameterNameToString name, Description = d,
                  Secure = (ParameterMetadata_Type m = ''SecureString''), Version = Atoi d,
                  LastModifiedDate = ParameterMetadata_LastModifiedDate m,
                  LastModifiedUser = ParameterMetadata_LastModifiedUser m\<rparr>\<rparr>"
proof -
  let ?n = "parameterNameToString name"
  let ?pages = "DescribeParametersPages svc ''OneLevel'' (path_Dir ?n) st"
  from eachPage_getLatest[of ?n ?pages None] assms(2)
  have e: "eachPage (\<lambda>page lastPage. getLatest_page ?n page) ?pages None = (None, Some m)" by auto
  from assms(2) have "ParameterMetadata_Name m = ?n" by (auto simp add: find_Some_iff)
  with assms(1,3) e show ?thesis
    by (simp add: getLatest_def Let_def parameterMetaToValueMeta_def)
qed

lemma getVersion_no_history:
  "GetParameterHistoryPages svc (parameterNameToString name) st = Inl err # rest \<Longrightarrow>
   getVersion svc name version st = Inl ErrConfigNotFound"
  by (simp add: getVersion_def)

lemma SSMStore_Delete_absent:
  "SSMStore_Get svc name (- 1) st = Inl err \<Longrightarrow> SSMStore_Delete svc name st = (Some err, st)"
  by (simp add: SSMStore_Delete_def)

lemma SSMStore_Put_version:
  "SSMStore_Put svc name val st =
     (case SSMStore_Get svc name (- 1) st of
        Inl err \<Rightarrow>
          if err \<noteq> ErrConfigNotFound then (Some err, st)
          else (case PutParameter svc (putParameterInput name val 1) st of
                  (Some err, st') \<Rightarrow> (Some (ServiceError err), st')
                | (None, st') \<Rightarrow> (None, st'))
      | Inr current \<Rightarrow>
          (case PutParameter svc (putParameterInput name val (int64 (Version (Meta current) + 1))) st of
             (Some err, st') \<Rightarrow> (Some (ServiceError err), st')
           | (None, st') \<Rightarrow> (None, st')))"
  by (simp add: SSMStore_Put_def split: sum.splits)

subsection \<open>On the example service\<close>

lemma memService_GetParameters:
  "GetParameters memService [n] st =
     Inr (case memService_latest st n of
            None \<Rightarrow> []
          | Some h \<Rightarrow> [\<lparr>Parameter_Name = n, Parameter_Value = ParameterHistory_Value h\<rparr>])"
  by (simp add: memService_def split: option.splits)

lemma find_listing:
  "find (\<lambda>m. ParameterMetadata_Name m = n)
     (concat (map (\<lambda>k. case memService_latest st k of
                          None \<Rightarrow> []
                        | Some h \<Rightarrow> if path_Dir k = dir then [memService_metadata k h] else []) ks))
   = (case memService_latest st n of
        None \<Rightarrow> None
      | Some h \<Rightarrow> if n \<in> set ks \<and> path_Dir n = dir then Some (memService_metadata n h) else None)"
  by (induction ks) (auto simp add: memService_metadata_def split: option.splits)

lemma memService_latest_dom: "memService_latest st n = Some h \<Longrightarrow> n \<in> set (map fst st)"
  by (auto simp add: memService_latest_def split: option.splits if_splits dest: map_of_SomeD intro: rev_image_eqI)

lemma memService_Describe:
  "find (\<lambda>m. ParameterMetadata_Name m = n)
     (history_of_pages (DescribeParametersPages memService ''OneLevel'' (path_Dir n) st))
   = (case memService_latest st n of None \<Rightarrow> None | Some h \<Rightarrow> Some (memService_metadata n h))"
proof -
  have "history_of_pages (DescribeParametersPages memService ''OneLevel'' (path_Dir n) st)
      = concat (map (\<lambda>k. case memService_latest st k of
                          None \<Rightarrow> []
                        | Some h \<Rightarrow> if path_Dir k = path_Dir n then [memService_metadata k h] else [])
                 (map fst st))"
    by (simp add: memService_def del: map_map cong: option.case_cong)
  with memService_latest_dom[of st n] show ?thesis
    by (simp only: find_listing) (simp split: option.splits)
qed

lemma memService_getLatest:
  "getLatest memService name st =
     (case memService_latest st (parameterNameToString name) of
        None \<Rightarrow> Inl ErrConfigNotFound
      | Some h \<Rightarrow>
         (case ParameterHistory_Description h of
            None \<Rightarrow> Inl PanicNilDereference
          | Some d \<Rightarrow>
             Inr \<lparr>Value = ParameterHistory_Value h,
                  Meta = \<lparr>Key = parameterNameToString name, Description = d,
                          Secure = (ParameterHistory_Type h = ''SecureString''), Version = Atoi d,
                          LastModifiedDate = ParameterHistory_LastModifiedDate h,
                          LastModifiedUser = ParameterHistory_LastModifiedUser h\<rparr>\<rparr>))"
proof (cases "memService_latest st (parameterNameToString name)")
  case None
  then show ?thesis
    by (simp add: getLatest_missing memService_GetParameters)
next
  case (Some h)
  let ?n = "parameterNameToString name"
  let ?pages = "DescribeParametersPages memService ''OneLevel'' (path_Dir ?n) st"
  have g: "GetParameters memService [?n] st = Inr [\<lparr>Parameter_Name = ?n, Parameter_Value = ParameterHistory_Value h\<rparr>]"
    by (simp add: memService_GetParameters Some)
  have f: "find (\<lambda>m. ParameterMetadata_Name m = ?n) (history_of_pages ?pages) = Some (memService_metadata ?n h)"
    by (simp add: memService_Describe Some)
  show ?thesis
  proof (cases "ParameterHistory_Description h")
    case None
    from eachPage_getLatest[of ?n ?pages None] f
    have "eachPage (\<lambda>page lastPage. getLatest_page ?n page) ?pages None = (None, Some (memService_metadata ?n h))"
      by auto
    with g None Some show ?thesis
      by (simp add: getLatest_def Let_def parameterMetaToValueMeta_def memService_metadata_def)
  next
    case d: (Some d)
    from getLatest_found[OF g f, of d] d Some show ?thesis
      by (simp add: memService_metadata_def)
  qed
qed

lemma memService_PutParameter:
  "PutParameter memService (putParameterInput name val v) st = (None, st') \<Longrightarrow>
   Value val \<noteq> None \<and>
   memService_latest st' (parameterNameToString name) =
     Some \<lparr>ParameterHistory_Name = parameterNameToString name,
           ParameterHistory_Description = Some (Itoa v),
           ParameterHistory_Type = (if Secure (Meta val) then ''SecureString'' else ''String''),
           ParameterHistory_Value = Value val,
           ParameterHistory_LastModifiedDate = 0,
           ParameterHistory_LastModifiedUser = ''user''\<rparr>"
  by (auto simp add: memService_def putParameterInput_def memService_latest_def update_conv'
      split: if_splits)

lemma SSMStore_Put_Get_memService:
  assumes "SSMStore_Put memService name val st = (None, st')"
  shows "SSMStore_Get memService name (- 1) st' =
     Inr \<lparr>Value = Value val,
          Meta = \<lparr>Key = parameterNameToString name,
                  Description = Itoa (case SSMStore_Get memService name (- 1) st of
                                        Inl err \<Rightarrow> 1
                                      | Inr current \<Rightarrow> int64 (Version (Meta current) + 1)),
                  Secure = Secure (Meta val),
                  Version = (case SSMStore_Get memService name (- 1) st of
                               Inl err \<Rightarrow> 1
                             | Inr current \<Rightarrow> int64 (Version (Meta current) + 1)),
                  LastModifiedDate = 0, LastModifiedUser = ''user''\<rparr>\<rparr>"
proof -
  let ?v = "case SSMStore_Get memService name (- 1) st of
              Inl err \<Rightarrow> 1 | Inr current \<Rightarrow> int64 (Version (Meta current) + 1)"
  from assms have put: "PutParameter memService (putParameterInput name val ?v) st = (None, st')"
    by (auto simp add: SSMStore_Put_version split: sum.splits if_splits prod.splits option.splits)
  have range: "- (2 ^ 63) \<le> ?v \<and> ?v < 2 ^ 63"
    using int64_range by (simp split: sum.splits)
  then have "Atoi (Itoa ?v) = ?v" by (intro Atoi_Itoa) simp_all
  with memService_PutParameter[OF put] show ?thesis
    by (simp add: SSMStore_Get_def memService_getLatest)
qed

lemma memService_Delete:
  assumes "SSMStore_Delete memService name st = (None, st')"
  shows "SSMStore_Get memService name version st' = Inl ErrConfigNotFound"
proof -
  let ?n = "parameterNameToString name"
  from assms have "st' = AList.delete ?n st"
    by (auto simp add: SSMStore_Delete_def memService_def split: sum.splits option.splits)
  then have none: "map_of st' ?n = None" by (simp add: delete_conv')
  then have "getLatest memService name st' = Inl ErrConfigNotFound"
    by (simp add: memService_getLatest memService_latest_def)
  moreover from none have "getVersion memService name version st' = Inl ErrConfigNotFound"
    by (intro getVersion_no_history[of _ _ _ "''ParameterNotFound''" "[]"]) (simp add: memService_def)
  ultimately show ?thesis by (simp add: SSMStore_Get_def)
qed

lemma memService_Delete_missing:
  "map_of st (parameterNameToString name) = None \<Longrightarrow>
   SSMStore_Delete memService name st = (Some ErrConfigNotFound, st)"
  by (simp add: SSMStore_Delete_def SSMStore_Get_def memService_getLatest memService_latest_def)

text \<open>
  C3, amended. In the in-memory store a \<open>Put\<close> followed by \<open>Get\<close> with version -1
  returns the \<open>Value\<close> just written, its metadata and so its version as the caller
  passed them: the store assigns no version. In the remote store \<open>Put\<close> writes the
  value with the description \<open>Itoa v\<close>, where \<open>v\<close> is the version that \<open>Get\<close> with -1
  reports plus 1, in 64-bit arithmetic, or 1 when that \<open>Get\<close> fails with
  \<open>ErrConfigNotFound\<close>; any other failure of that \<open>Get\<close> ends the \<open>Put\<close>. \<open>Atoi\<close>
  reads \<open>Itoa v\<close> back as \<open>v\<close>, and on a service that stores what it is given a
  successful \<open>Put\<close> followed by \<open>Get\<close> with -1 returns the value just written with the
  version \<open>v\<close>.
\<close>

theorem Put_then_Get_latest:
  "fst (MemoryStore_Put name val m) = None
   \<and> MemoryStore_Get name (- 1) (snd (MemoryStore_Put name val m)) = Inr val
   \<and> SSMStore_Put svc name val st =
       (case SSMStore_Get svc name (- 1) st of
          Inl err \<Rightarrow>
            if err \<noteq> ErrConfigNotFound then (Some err, st)
            else (case PutParameter svc (putParameterInput name val 1) st of
                    (Some err, st') \<Rightarrow> (Some (ServiceError err), st')
                  | (None, st') \<Rightarrow> (None, st'))
        | Inr current \<Rightarrow>
            (case PutParameter svc (putParameterInput name val (int64 (Version (Meta current) + 1))) st of
               (Some err, st') \<Rightarrow> (Some (ServiceError err), st')
             | (None, st') \<Rightarrow> (None, st')))
   \<and> PutParameterInput_Description (putParameterInput name val v) = Itoa v
   \<and> PutParameterInput_Value (putParameterInput name val v) = Value val
   \<and> PutParameterInput_Overwrite (putParameterInput name val v)
   \<and> (- (2 ^ 63) \<le> v \<and> v < 2 ^ 63 - 1 \<longrightarrow> int64 (v + 1) = v + 1 \<and> Atoi (Itoa (v + 1)) = v + 1)
   \<and> (SSMStore_Put memService name val ms = (None, ms') \<longrightarrow>
        SSMStore_Get memService name (- 1) ms' =
          Inr \<lparr>Value = Value val,
               Meta = \<lparr>Key = parameterNameToString name,
                       Description = Itoa (case SSMStore_Get memService name (- 1) ms of
                                             Inl err \<Rightarrow> 1
                                           | Inr current \<Rightarrow> int64 (Version (Meta current) + 1)),
                       Secure = Secure (Meta val),
                       Version = (case SSMStore_Get memService name (- 1) ms of
                                    Inl err \<Rightarrow> 1
                                  | Inr current \<Rightarrow> int64 (Version (Meta current) + 1)),
                       LastModifiedDate = 0, LastModifiedUser = ''user''\<rparr>\<rparr>)"
proof (intro conjI impI)
  show "fst (MemoryStore_Put name val m) = None" by (simp add: MemoryStore_Put_def Let_def)
  show "MemoryStore_Get name (- 1) (snd (MemoryStore_Put name val m)) = Inr val"
    by (rule MemoryStore_Put_Get)
  show "SSMStore_Put svc name val st =
       (case SSMStore_Get svc name (- 1) st of
          Inl err \<Rightarrow>
            if err \<noteq> ErrConfigNotFound then (Some err, st)
            else (case PutParameter svc (putParameterInput name val 1) st of
                    (Some err, st') \<Rightarrow> (Some (ServiceError err), st')
                  | (None, st') \<Rightarrow> (None, st'))
        | Inr current \<Rightarrow>
            (case PutParameter svc (putParameterInput name val (int64 (Version (Meta current) + 1))) st of
               (Some err, st') \<Rightarrow> (Some (ServiceError err), st')
             | (None, st') \<Rightarrow> (None, st')))"
    by (rule SSMStore_Put_version)
  show "PutParameterInput_Description (putParameterInput name val v) = Itoa v"
    "PutParameterInput_Value (putParameterInput name val v) = Value val"
    "PutParameterInput_Overwrite (putParameterInput name val v)"
    by (simp_all add: putParameterInput_def)
next
  assume v: "- (2 ^ 63) \<le> v \<and> v < 2 ^ 63 - 1"
  then show "int64 (v + 1) = v + 1" by (intro int64_succ) simp_all
  from v show "Atoi (Itoa (v + 1)) = v + 1" by (intro Atoi_Itoa) simp_all
next
  assume "SSMStore_Put memService name val ms = (None, ms')"
  then show "SSMStore_Get memService name (- 1) ms' =
          Inr \<lparr>Value = Value val,
               Meta = \<lparr>Key = parameterNameToString name,
                       Description = Itoa (case SSMStore_Get memService name (- 1) ms of
                                             Inl err \<Rightarrow> 1
                                           | Inr current \<Rightarrow> int64 (Version (Meta current) + 1)),
                       Secure = Secure (Meta val),
                       Version = (case SSMStore_Get memService name (- 1) ms of
                                    Inl err \<Rightarrow> 1
                                  | Inr current \<Rightarrow> int64 (Version (Meta current) + 1)),
                       LastModifiedDate = 0, LastModifiedUser = ''user''\<rparr>\<rparr>"
    by (rule SSMStore_Put_Get_memService)
qed

lemma decimal_digit: "n < 10 \<Longrightarrow> decimal n = [digitChar n]"
  by (subst decimal.simps) simp

theorem Put_then_Get_latest_witness:
  "SSMStore_Put memService \<lparr>ParameterPath = ''/t'', Name = ''k''\<rparr> \<lparr>Value = Some ''a'', Meta = Metadata_zero\<rparr> []
     = (None, [(''/t/k'', [\<lparr>ParameterHistory_Name = ''/t/k'', ParameterHistory_Description = Some ''1'',
                            ParameterHistory_Type = ''String'', ParameterHistory_Value = Some ''a'',
                            ParameterHistory_LastModifiedDate = 0, ParameterHistory_LastModifiedUser = ''user''\<rparr>])])
   \<and> SSMStore_Get memService \<lparr>ParameterPath = ''/t'', Name = ''k''\<rparr> (- 1)
        [(''/t/k'', [\<lparr>ParameterHistory_Name = ''/t/k'', ParameterHistory_Description = Some ''1'',
                      ParameterHistory_Type = ''String'', ParameterHistory_Value = Some ''a'',
                      ParameterHistory_LastModifiedDate = 0, ParameterHistory_LastModifiedUser = ''user''\<rparr>])]
       = Inr \<lparr>Value = Some ''a'',
              Meta = \<lparr>Key = ''/t/k'', Description = ''1'', Secure = False, Version = 1,
                      LastModifiedDate = 0, LastModifiedUser = ''user''\<rparr>\<rparr>
   \<and> - (2 ^ 63) \<le> (1 :: int) \<and> (1 :: int) < 2 ^ 63 - 1
   \<and> int64 (1 + 1) = 2 \<and> Atoi (Itoa (1 + 1)) = 2"
proof -
  let ?name = "\<lparr>ParameterPath = ''/t'', Name = ''k''\<rparr>"
  let ?val = "\<lparr>Value = Some ''a'', Meta = Metadata_zero\<rparr>"
  let ?st1 = "[(''/t/k'', [\<lparr>ParameterHistory_Name = ''/t/k'', ParameterHistory_Description = Some ''1'',
                            ParameterHistory_Type = ''String'', ParameterHistory_Value = Some ''a'',
                            ParameterHistory_LastModifiedDate = 0, ParameterHistory_LastModifiedUser = ''user''\<rparr>])]"
  have n: "parameterNameToString ?name = ''/t/k''"
    by (simp add: parameterNameToString_def path_Join_def path_Clean_def)
  have i: "Itoa 1 = ''1''"
    by (simp add: Itoa_def decimal_digit digitChar_def)
  have g0: "SSMStore_Get memService ?name (- 1) [] = Inl ErrConfigNotFound"
    by (simp add: SSMStore_Get_def memService_getLatest memService_latest_def)
  have pp: "PutParameter memService (putParameterInput ?name ?val 1) [] = (None, ?st1)"
    by (simp add: memService_def putParameterInput_def n i Metadata_zero_def)
  have put: "SSMStore_Put memService ?name ?val [] = (None, ?st1)"
    by (simp add: SSMStore_Put_version g0 pp)
  have b: "- (2 ^ 63) \<le> (1 :: int) \<and> (1 :: int) < 2 ^ 63 - 1" by simp
  from Put_then_Get_latest[of ?name ?val "[]" memService "[]" 1 "[]" ?st1] put b
  show ?thesis
    by (simp add: g0 n i Metadata_zero_def)
qed

text \<open>
  C3 as stated fails for the in-memory store: a \<open>Put\<close> of a new key with the metadata
  that the \<open>put\<close> command passes (version 0) is read back with version 0, not 1, and a
  second \<open>Put\<close> leaves the version at 0.
\<close>

theorem Put_then_Get_latest_counterexample:
  "MemoryStore_Get \<lparr>ParameterPath = ''/t'', Name = ''k''\<rparr> (- 1) NewMemoryStore = Inl ErrConfigNotFound
   \<and> MemoryStore_Get \<lparr>ParameterPath = ''/t'', Name = ''k''\<rparr> (- 1)
        (snd (MemoryStore_Put \<lparr>ParameterPath = ''/t'', Name = ''k''\<rparr>
                \<lparr>Value = Some ''a'', Meta = Metadata_zero\<rparr> NewMemoryStore))
       = Inr \<lparr>Value = Some ''a'', Meta = Metadata_zero\<rparr>
   \<and> MemoryStore_Get \<lparr>ParameterPath = ''/t'', Name = ''k''\<rparr> (- 1)
        (snd (MemoryStore_Put \<lparr>ParameterPath = ''/t'', Name = ''k''\<rparr>
                \<lparr>Value = Some ''b'', Meta = Metadata_zero\<rparr>
                (snd (MemoryStore_Put \<lparr>ParameterPath = ''/t'', Name = ''k''\<rparr>
                        \<lparr>Value = Some ''a'', Meta = Metadata_zero\<rparr> NewMemoryStore))))
       = Inr \<lparr>Value = Some ''b'', Meta = Metadata_zero\<rparr>
   \<and> Version Metadata_zero = 0"
  by (simp add: MemoryStore_Get_def MemoryStore_Put_def NewMemoryStore_def Let_def Metadata_zero_def)

text \<open>
  C4, amended. In the in-memory store \<open>Delete\<close> returns no error, also on a key that
  does not exist, which leaves the store as it is; after a \<open>Delete\<close> every \<open>Get\<close> on
  the key, with any version, fails with \<open>ErrConfigNotFound\<close>. In the remote store
  \<open>Delete\<close> returns the failure of its \<open>Get\<close> with -1 without calling the service's
  delete: \<open>ErrConfigNotFound\<close> when the service reports no such parameter. \<open>Get\<close>
  fails with \<open>ErrConfigNotFound\<close> when the service reports no parameter (version -1)
  or answers the request for the history with an error (explicit version), as it does
  after a successful \<open>Delete\<close> on a service that stores what it is given.
\<close>

theorem Delete_then_Get:
  "fst (MemoryStore_Delete name m) = None
   \<and> (MemoryStore_Get name version m = Inl ErrConfigNotFound \<longrightarrow> MemoryStore_Delete name m = (None, m))
   \<and> MemoryStore_Get name version (snd (MemoryStore_Delete name m)) = Inl ErrConfigNotFound
   \<and> (SSMStore_Get svc name (- 1) st = Inl err \<longrightarrow> SSMStore_Delete svc name st = (Some err, st))
   \<and> (GetParameters svc [parameterNameToString name] st = Inr [] \<longrightarrow>
        SSMStore_Get svc name (- 1) st = Inl ErrConfigNotFound
        \<and> SSMStore_Delete svc name st = (Some ErrConfigNotFound, st))
   \<and> (GetParameterHistoryPages svc (parameterNameToString name) st = Inl msg # rest \<and> version \<noteq> - 1 \<longrightarrow>
        SSMStore_Get svc name version st = Inl ErrConfigNotFound)
   \<and> (map_of ms (parameterNameToString name) = None \<longrightarrow>
        SSMStore_Delete memService name ms = (Some ErrConfigNotFound, ms))
   \<and> (SSMStore_Delete memService name ms = (None, ms') \<longrightarrow>
        SSMStore_Get memService name version ms' = Inl ErrConfigNotFound)"
proof (intro conjI impI)
  show "fst (MemoryStore_Delete name m) = None" by (simp add: MemoryStore_Delete_def Let_def)
  show "MemoryStore_Get name version (snd (MemoryStore_Delete name m)) = Inl ErrConfigNotFound"
    by (rule MemoryStore_Delete_Get)
next
  assume "MemoryStore_Get name version m = Inl ErrConfigNotFound"
  then show "MemoryStore_Delete name m = (None, m)" by (rule MemoryStore_Delete_missing)
next
  assume "SSMStore_Get svc name (- 1) st = Inl err"
  then show "SSMStore_Delete svc name st = (Some err, st)" by (rule SSMStore_Delete_absent)
next
  assume g: "GetParameters svc [parameterNameToString name] st = Inr []"
  then show 1: "SSMStore_Get svc name (- 1) st = Inl ErrConfigNotFound"
    by (simp add: SSMStore_Get_def getLatest_missing)
  then show "SSMStore_Delete svc name st = (Some ErrConfigNotFound, st)" by (rule SSMStore_Delete_absent)
next
  assume "GetParameterHistoryPages svc (parameterNameToString name) st = Inl msg # rest \<and> version \<noteq> - 1"
  then show "SSMStore_Get svc name version st = Inl ErrConfigNotFound"
    by (simp add: SSMStore_Get_def getVersion_no_history)
next
  assume "map_of ms (parameterNameToString name) = None"
  then show "SSMStore_Delete memService name ms = (Some ErrConfigNotFound, ms)"
    by (rule memService_Delete_missing)
next
  assume "SSMStore_Delete memService name ms = (None, ms')"
  then show "SSMStore_Get memService name version ms' = Inl ErrConfigNotFound"
    by (rule memService_Delete)
qed

theorem Delete_then_Get_witness:
  "MemoryStore_Get \<lparr>ParameterPath = ''/t'', Name = ''k''\<rparr> 1 NewMemoryStore = Inl ErrConfigNotFound
   \<and> MemoryStore_Delete \<lparr>ParameterPath = ''/t'', Name = ''k''\<rparr> NewMemoryStore = (None, NewMemoryStore)
   \<and> SSMStore_Get memService \<lparr>ParameterPath = ''/t'', Name = ''k''\<rparr> (- 1) [] = Inl ErrConfigNotFound
   \<and> GetParameters memService [parameterNameToString \<lparr>ParameterPath = ''/t'', Name = ''k''\<rparr>] [] = Inr []
   \<and> GetParameterHistoryPages memService (parameterNameToString \<lparr>ParameterPath = ''/t'', Name = ''k''\<rparr>) []
       = [Inl ''ParameterNotFound'']
   \<and> map_of ([] :: memService_state) (parameterNameToString \<lparr>ParameterPath = ''/t'', Name = ''k''\<rparr>) = None
   \<and> SSMStore_Delete memService \<lparr>ParameterPath = ''/t'', Name = ''k''\<rparr> [] = (Some ErrConfigNotFound, [])
   \<and> SSMStore_Get memService \<lparr>ParameterPath = ''/t'', Name = ''k''\<rparr> 1 [] = Inl ErrConfigNotFound
   \<and> SSMStore_Delete memService \<lparr>ParameterPath = ''/t'', Name = ''k''\<rparr>
        [(''/t/k'', [\<lparr>ParameterHistory_Name = ''/t/k'', ParameterHistory_Description = Some ''1'',
                      ParameterHistory_Type = ''String'', ParameterHistory_Value = Some ''a'',
                      ParameterHistory_LastModifiedDate = 0, ParameterHistory_LastModifiedUser = ''user''\<rparr>])]
       = (None, [])
   \<and> SSMStore_Get memService \<lparr>ParameterPath = ''/t'', Name = ''k''\<rparr> 1 [] = Inl ErrConfigNotFound"
proof -
  let ?name = "\<lparr>ParameterPath = ''/t'', Name = ''k''\<rparr>"
  let ?st1 = "[(''/t/k'', [\<lparr>ParameterHistory_Name = ''/t/k'', ParameterHistory_Description = Some ''1'',
                            ParameterHistory_Type = ''String'', ParameterHistory_Value = Some ''a'',
                            ParameterHistory_LastModifiedDate = 0, ParameterHistory_LastModifiedUser = ''user''\<rparr>])]"
  have n: "parameterNameToString ?name = ''/t/k''"
    by (simp add: parameterNameToString_def path_Join_def path_Clean_def)
  have h1: "MemoryStore_Get ?name 1 NewMemoryStore = Inl ErrConfigNotFound"
    by (simp add: MemoryStore_Get_def NewMemoryStore_def Let_def)
  have h2: "GetParameters memService [parameterNameToString ?name] [] = Inr []"
    by (simp add: memService_GetParameters memService_latest_def)
  have h3: "GetParameterHistoryPages memService (parameterNameToString ?name) [] = [Inl ''ParameterNotFound'']"
    by (simp add: memService_def)
  have h4: "map_of ([] :: memService_state) (parameterNameToString ?name) = None" by simp
  have d: "DeleteParameter memService ''/t/k'' ?st1 = (None, [])"
    by (simp add: memService_def)
  have h5: "SSMStore_Delete memService ?name ?st1 = (None, [])"
    by (simp add: SSMStore_Delete_def SSMStore_Get_def memService_getLatest memService_latest_def n d)
  from Delete_then_Get[of ?name NewMemoryStore 1 memService "[]" ErrConfigNotFound "''ParameterNotFound''" "[]" "[]" "[]"]
    h1 h2 h3 h4
  have a: "MemoryStore_Delete ?name NewMemoryStore = (None, NewMemoryStore)"
    "SSMStore_Get memService ?name (- 1) [] = Inl ErrConfigNotFound"
    "SSMStore_Delete memService ?name [] = (Some ErrConfigNotFound, [])"
    "SSMStore_Get memService ?name 1 [] = Inl ErrConfigNotFound"
    by simp_all
  from Delete_then_Get[of ?name NewMemoryStore 1 memService "[]" ErrConfigNotFound "''ParameterNotFound''" "[]" ?st1 "[]"] h5
  have b: "SSMStore_Get memService ?name 1 [] = Inl ErrConfigNotFound" by simp
  from h1 h2 h3 h4 h5 a b show ?thesis by simp
qed

text \<open>
  C4 as stated fails for the in-memory store: \<open>Delete\<close> on a key that does not exist
  returns no error.
\<close>

theorem Delete_then_Get_counterexample:
  "MemoryStore_Get \<lparr>ParameterPath = ''/t'', Name = ''k''\<rparr> (- 1) NewMemoryStore = Inl ErrConfigNotFound
   \<and> MemoryStore_Delete \<lparr>ParameterPath = ''/t'', Name = ''k''\<rparr> NewMemoryStore = (None, NewMemoryStore)"
  by (simp add: MemoryStore_Get_def MemoryStore_Delete_def NewMemoryStore_def Let_def)

end
